theory Spec2Isabelle
  imports Main "HOL-Library.Word"
begin

unbundle bit_operations_syntax

section \<open>Bytes, strings and the library calls of the identifier helpers\<close>

text \<open>
  Go strings are byte sequences; a \<^typ>\<open>char\<close> is one byte, a \<^typ>\<open>string\<close> a list of
  them.  Byte values that the code shifts and masks are 8-bit words, Go's \<open>uint\<close> is a
  64-bit word.
\<close>

type_synonym byte = "8 word"
type_synonym uint = "64 word"

datatype error =
    InvalidByteError char      \<comment> \<open>\<open>encoding/hex\<close>: a byte that is no hex digit\<close>
  | ErrLength                  \<comment> \<open>\<open>encoding/hex\<close>: odd length\<close>
  | CorruptInputError          \<comment> \<open>\<open>encoding/base64\<close>: illegal base64 data\<close>
  | InvalidBinDataFormat       \<comment> \<open>\<open>fmt.Errorf("invalid BinData format")\<close>\<close>
  | InvalidUUIDByteLength      \<comment> \<open>\<open>fmt.Errorf("invalid UUID byte length")\<close>\<close>

subsection \<open>Package \<open>strings\<close>\<close>

text \<open>\<open>strings.ReplaceAll(s, old, new)\<close> for a one-byte \<open>old\<close>, the only use the code makes.\<close>

definition ReplaceAll :: "string \<Rightarrow> char \<Rightarrow> string \<Rightarrow> string" where
  "ReplaceAll s old new = concat (map (\<lambda>c. if c = old then new else [c]) s)"

definition HasPrefix :: "string \<Rightarrow> string \<Rightarrow> bool" where
  "HasPrefix s prefix = (length prefix \<le> length s \<and> take (length prefix) s = prefix)"

definition HasSuffix :: "string \<Rightarrow> string \<Rightarrow> bool" where
  "HasSuffix s suffix =
     (length suffix \<le> length s \<and> drop (length s - length suffix) s = suffix)"

definition TrimPrefix :: "string \<Rightarrow> string \<Rightarrow> string" where
  "TrimPrefix s prefix = (if HasPrefix s prefix then drop (length prefix) s else s)"

definition TrimSuffix :: "string \<Rightarrow> string \<Rightarrow> string" where
  "TrimSuffix s suffix =
     (if HasSuffix s suffix then take (length s - length suffix) s else s)"

subsection \<open>Package \<open>encoding/hex\<close>\<close>

definition hextable :: string where
  "hextable = ''0123456789abcdef''"

text \<open>The 256-entry table of the package: the digit's value, or \<open>0xff\<close> for any other byte.\<close>

definition reverseHexTable :: "char \<Rightarrow> byte" where
  "reverseHexTable c =
     (case map_of (zip ''0123456789abcdefABCDEF''
              [0, 1, 2, 3, 4, 5, 6, 7, 8, 9, 10, 11, 12, 13, 14, 15, 10, 11, 12, 13, 14, 15]) c of
        None \<Rightarrow> 0xff
      | Some v \<Rightarrow> v)"

text \<open>
  \<open>hex.DecodeString\<close>: two digits make a byte; an invalid digit is reported before an odd
  length.
\<close>

fun hex_DecodeString :: "string \<Rightarrow> error + byte list" where
  "hex_DecodeString [] = Inr []"
| "hex_DecodeString [p] =
     (if reverseHexTable p > 0x0f then Inl (InvalidByteError p) else Inl ErrLength)"
| "hex_DecodeString (p # q # rest) =
     (let a = reverseHexTable p; b = reverseHexTable q in
      if a > 0x0f then Inl (InvalidByteError p)
      else if b > 0x0f then Inl (InvalidByteError q)
      else (case hex_DecodeString rest of
              Inl e \<Rightarrow> Inl e
            | Inr bs \<Rightarrow> Inr ((push_bit 4 a OR b) # bs)))"

subsection \<open>Package \<open>encoding/base64\<close>, the standard encoding with padding\<close>

definition encodeStd :: string where
  "encodeStd = ''ABCDEFGHIJKLMNOPQRSTUVWXYZabcdefghijklmnopqrstuvwxyz0123456789+/''"

definition padChar :: char where
  "padChar = CHR ''=''"

text \<open>\<open>decodeMap\<close> is filled with \<open>0xff\<close> and then holds \<open>i\<close> at the byte \<open>encodeStd[i]\<close>.\<close>

definition decodeMap :: "char \<Rightarrow> byte" where
  "decodeMap c =
     (case map_of (zip encodeStd (map of_nat [0 ..< 64])) c of
        None \<Rightarrow> 0xff
      | Some v \<Rightarrow> v)"

definition enc :: "uint \<Rightarrow> char" where
  "enc v = encodeStd ! unat v"

text \<open>\<open>Encode\<close>: three bytes give four digits; a last block of one or two bytes is padded.\<close>

fun EncodeToString :: "byte list \<Rightarrow> string" where
  "EncodeToString (b0 # b1 # b2 # rest) =
     (let val = push_bit 16 (ucast b0) OR push_bit 8 (ucast b1) OR ucast b2 in
      [enc (drop_bit 18 val AND 0x3F), enc (drop_bit 12 val AND 0x3F),
       enc (drop_bit 6 val AND 0x3F), enc (val AND 0x3F)] @ EncodeToString rest)"
| "EncodeToString [b0, b1] =
     (let val = push_bit 16 (ucast b0) OR push_bit 8 (ucast b1) in
      [enc (drop_bit 18 val AND 0x3F), enc (drop_bit 12 val AND 0x3F),
       enc (drop_bit 6 val AND 0x3F), padChar])"
| "EncodeToString [b0] =
     (let val = push_bit 16 (ucast b0) in
      [enc (drop_bit 18 val AND 0x3F), enc (drop_bit 12 val AND 0x3F), padChar, padChar])"
| "EncodeToString [] = []"

text \<open>
  The last step of \<open>decodeQuantum\<close>: \<open>dlen\<close> digits (missing ones are 0) give \<open>dlen - 1\<close>
  bytes.  The standard encoding is not strict, so left-over bits are not checked.
\<close>

definition quantum_val :: "byte \<Rightarrow> byte \<Rightarrow> byte \<Rightarrow> byte \<Rightarrow> uint" where
  "quantum_val d0 d1 d2 d3 =
     push_bit 18 (ucast d0) OR push_bit 12 (ucast d1) OR push_bit 6 (ucast d2) OR ucast d3"

definition quantum_bytes :: "byte list \<Rightarrow> byte list" where
  "quantum_bytes dbuf =
     (let d = dbuf @ replicate (4 - length dbuf) 0;
          val = quantum_val (d ! 0) (d ! 1) (d ! 2) (d ! 3)
      in take (length dbuf - 1)
           [ucast (drop_bit 16 val), ucast (drop_bit 8 val), ucast val])"

definition is_newline :: "char \<Rightarrow> bool" where
  "is_newline c = (c = CHR 0x0A \<or> c = CHR 0x0D)"

text \<open>
  \<open>Decode\<close> as the loop over \<open>decodeQuantum\<close> (the 8- and 4-digit fast paths of the package
  compute the same): \<open>dbuf\<close> holds the digits of the current quantum.  Newlines are
  skipped; padding is accepted only after two or three digits, complete, and followed by
  nothing but newlines.
\<close>

fun Decode :: "byte list \<Rightarrow> string \<Rightarrow> error + byte list" where
  "Decode dbuf [] = (if dbuf = [] then Inr [] else Inl CorruptInputError)"
| "Decode dbuf (c # src) =
     (let out = decodeMap c in
      if out \<noteq> 0xff then
        (if length dbuf = 3 then
           (case Decode [] src of
              Inl e \<Rightarrow> Inl e
            | Inr bs \<Rightarrow> Inr (quantum_bytes (dbuf @ [out]) @ bs))
         else Decode (dbuf @ [out]) src)
      else if is_newline c then Decode dbuf src
      else if c \<noteq> padChar then Inl CorruptInputError
      else if length dbuf < 2 then Inl CorruptInputError
      else if length dbuf = 2 then
        (case dropWhile is_newline src of
           [] \<Rightarrow> Inl CorruptInputError
         | c' # src' \<Rightarrow>
             if c' \<noteq> padChar then Inl CorruptInputError
             else if dropWhile is_newline src' \<noteq> [] then Inl CorruptInputError
             else Inr (quantum_bytes dbuf))
      else if dropWhile is_newline src \<noteq> [] then Inl CorruptInputError
      else Inr (quantum_bytes dbuf))"

definition DecodeString :: "string \<Rightarrow> error + byte list" where
  "DecodeString s = Decode [] s"

subsection \<open>Package \<open>fmt\<close>: the verb \<open>%x\<close> on a byte slice\<close>

text \<open>
  Two lower-case digits per byte.  The widths of the code's format string (8, 4, 4, 4, 12)
  equal the rendered lengths of its slices (4, 2, 2, 2, 6 bytes), so no padding is written.
\<close>

definition fmt_x :: "byte list \<Rightarrow> string" where
  "fmt_x bs = concat (map (\<lambda>c. [hextable ! unat (drop_bit 4 c), hextable ! unat (c AND 0xF)]) bs)"

section \<open>The identifier helpers\<close>

definition binPrefix :: string where
  "binPrefix = ''BinData(0, '' @ [CHR 0x27]"

definition binSuffix :: string where
  "binSuffix = [CHR 0x27, CHR '')'']"

text \<open>
  \<open>GetBsonIdFromUUId\<close>: remove the hyphens, decode the hex digits, encode the bytes in
  base64 and wrap them.  On a hex error the named result is returned as it is, empty.
\<close>

definition GetBsonIdFromUUId :: "string \<Rightarrow> string" where
  "GetBsonIdFromUUId uuidStr =
     (case hex_DecodeString (ReplaceAll uuidStr (CHR ''-'') []) of
        Inl err \<Rightarrow> []
      | Inr uuidBytes \<Rightarrow> binPrefix @ EncodeToString uuidBytes @ binSuffix)"

text \<open>
  \<open>GetStringUUidFromBsonId\<close> returns the pair \<open>(uuidStr, err)\<close>; \<open>None\<close> is the nil
  error.  The slices \<open>b[lo:hi]\<close> are in range because the length is 16 there.
\<close>

definition GetStringUUidFromBsonId :: "string \<Rightarrow> string \<times> error option" where
  "GetStringUUidFromBsonId binData =
     (if \<not> HasPrefix binData binPrefix \<or> \<not> HasSuffix binData binSuffix
      then ([], Some InvalidBinDataFormat)
      else
        let base64Str = TrimSuffix (TrimPrefix binData binPrefix) binSuffix in
        case DecodeString base64Str of
          Inl err \<Rightarrow> ([], Some err)
        | Inr uuidBytes \<Rightarrow>
            if length uuidBytes \<noteq> 16 then ([], Some InvalidUUIDByteLength)
            else (fmt_x (take 4 uuidBytes) @ ''-'' @
                  fmt_x (take 2 (drop 4 uuidBytes)) @ ''-'' @
                  fmt_x (take 2 (drop 6 uuidBytes)) @ ''-'' @
                  fmt_x (take 2 (drop 8 uuidBytes)) @ ''-'' @
                  fmt_x (take 6 (drop 10 uuidBytes)), None))"


subsection \<open>The notions of the claims about the identifier helpers\<close>

text \<open>A hex digit, as \<open>encoding/hex\<close> accepts it: either case.\<close>

definition is_hex_digit :: "char \<Rightarrow> bool" where
  "is_hex_digit c = (c \<in> set ''0123456789abcdefABCDEF'')"

definition valid_hex :: "string \<Rightarrow> bool" where
  "valid_hex s = (even (length s) \<and> list_all is_hex_digit s)"

text \<open>
  The standard format of the doc comments, \<open>xxxxxxxx-xxxx-xxxx-xxxx-xxxxxxxxxxxx\<close>: 36
  bytes, hyphens at the offsets 8, 13, 18 and 23, hex digits elsewhere.
\<close>

definition valid_uuid :: "string \<Rightarrow> bool" where
  "valid_uuid u =
     (length u = 36 \<and>
      u ! 8 = CHR ''-'' \<and> u ! 13 = CHR ''-'' \<and> u ! 18 = CHR ''-'' \<and> u ! 23 = CHR ''-'' \<and>
      list_all is_hex_digit (take 8 u) \<and>
      list_all is_hex_digit (take 4 (drop 9 u)) \<and>
      list_all is_hex_digit (take 4 (drop 14 u)) \<and>
      list_all is_hex_digit (take 4 (drop 19 u)) \<and>
      list_all is_hex_digit (drop 24 u))"

text \<open>The lower-case form of a hex digit; every other byte is kept.\<close>

definition lower_hex :: "char \<Rightarrow> char" where
  "lower_hex c = (case map_of (zip ''ABCDEF'' ''abcdef'') c of None \<Rightarrow> c | Some d \<Rightarrow> d)"

text \<open>The payload that \<open>GetStringUUidFromBsonId\<close> hands to the base64 decoder.\<close>

definition payload :: "string \<Rightarrow> string" where
  "payload binData = TrimSuffix (TrimPrefix binData binPrefix) binSuffix"


section \<open>The file system under the profile directory\<close>

text \<open>
  A path is the list of its components below the working directory, which exists and is
  the empty list.  A node is a directory with its permission bits or a regular file with
  its content.  What the operating system refuses for reasons outside this model
  (access rights, a full disk) is a parameter: \<open>mkdir_denied\<close>.
\<close>

type_synonym path = "string list"
type_synonym FileMode = "32 word"

datatype node = Dir FileMode | File string

type_synonym filesystem = "path \<Rightarrow> node option"

datatype errno = EEXIST | ENOENT | ENOTDIR | EACCES

datatype stat = StatDir | StatFile | ErrNotExist | ErrNotDir

text \<open>\<open>os.ModePerm\<close> is octal 0777, the mode of \<open>MakeDirIfNotExists\<close> octal 0755.\<close>

definition ModePerm :: FileMode where
  "ModePerm = 0x1FF"

definition mode_0755 :: FileMode where
  "mode_0755 = 0x1ED"

record os_env =
  umask :: FileMode
  mkdir_denied :: "path \<Rightarrow> bool"

definition is_file :: "filesystem \<Rightarrow> path \<Rightarrow> bool" where
  "is_file fs p = (case fs p of Some (File c) \<Rightarrow> True | _ \<Rightarrow> False)"

text \<open>\<open>os.Stat\<close>: a regular file on the way to the path is \<open>ENOTDIR\<close>, not \<open>ENOENT\<close>.\<close>

definition os_Stat :: "filesystem \<Rightarrow> path \<Rightarrow> stat" where
  "os_Stat fs p =
     (if p = [] then StatDir
      else if list_ex (\<lambda>n. is_file fs (take n p)) [1 ..< length p] then ErrNotDir
      else (case fs p of
              None \<Rightarrow> ErrNotExist
            | Some (Dir m) \<Rightarrow> StatDir
            | Some (File c) \<Rightarrow> StatFile))"

text \<open>\<open>os.IsNotExist(err)\<close> on the error of \<open>os.Stat\<close>.\<close>

definition IsNotExist :: "stat \<Rightarrow> bool" where
  "IsNotExist st = (st = ErrNotExist)"

text \<open>\<open>os.Mkdir\<close>: one directory, below an existing one, with the mode \<open>perm &^ umask\<close>.\<close>

definition os_Mkdir :: "os_env \<Rightarrow> filesystem \<Rightarrow> path \<Rightarrow> FileMode \<Rightarrow> filesystem \<times> errno option" where
  "os_Mkdir E fs p perm =
     (case os_Stat fs p of
        StatDir \<Rightarrow> (fs, Some EEXIST)
      | StatFile \<Rightarrow> (fs, Some EEXIST)
      | ErrNotDir \<Rightarrow> (fs, Some ENOTDIR)
      | ErrNotExist \<Rightarrow>
          if os_Stat fs (butlast p) \<noteq> StatDir then (fs, Some ENOENT)
          else if mkdir_denied E p then (fs, Some EACCES)
          else (fs(p \<mapsto> Dir (perm AND NOT (umask E))), None))"

text \<open>
  \<open>os.MkdirAll\<close>: nothing to do for a directory, an error for a file; otherwise the
  parent first, then the directory itself, and an error of \<open>Mkdir\<close> is forgiven when the
  directory is there after all.
\<close>

function os_MkdirAll :: "os_env \<Rightarrow> filesystem \<Rightarrow> path \<Rightarrow> FileMode \<Rightarrow> filesystem \<times> errno option" where
  "os_MkdirAll E fs p perm =
     (if os_Stat fs p = StatDir then (fs, None)
      else if os_Stat fs p = StatFile then (fs, Some ENOTDIR)
      else
        (case (if butlast p \<noteq> [] then os_MkdirAll E fs (butlast p) perm else (fs, None)) of
           (fs1, Some err) \<Rightarrow> (fs1, Some err)
         | (fs1, None) \<Rightarrow>
             (case os_Mkdir E fs1 p perm of
                (fs2, None) \<Rightarrow> (fs2, None)
              | (fs2, Some err) \<Rightarrow>
                  if os_Stat fs2 p = StatDir then (fs2, None) else (fs2, Some err))))"
  by pat_completeness auto
termination
proof (relation "measure (\<lambda>(E, fs, p, perm). length p)")
  fix p :: path
  assume "butlast p \<noteq> []"
  then have "length (butlast p) < length p" by (cases p) simp_all
  then show "\<And>E fs perm. ((E, fs, butlast p, perm), (E, fs, p, perm))
      \<in> measure (\<lambda>(E :: os_env, fs :: filesystem, p, perm :: FileMode). length p)"
    by simp
qed simp

text \<open>\<open>MakeDirIfNotExists\<close>: the error of \<open>MkdirAll\<close> is dropped.\<close>

definition MakeDirIfNotExists :: "os_env \<Rightarrow> filesystem \<Rightarrow> path \<Rightarrow> filesystem" where
  "MakeDirIfNotExists E fs p =
     (if IsNotExist (os_Stat fs p) then fst (os_MkdirAll E fs p mode_0755) else fs)"

text \<open>
  The directory preparation of \<open>RunProfiling\<close>: \<open>MakeDirIfNotExists(profileDir)\<close>, then
  \<open>os.MkdirAll(profileDir, os.ModePerm)\<close>, whose error is dropped as well;
  \<open>prepare_dir_err\<close> is that dropped error.
\<close>

definition prepare_dir :: "os_env \<Rightarrow> filesystem \<Rightarrow> path \<Rightarrow> filesystem" where
  "prepare_dir E fs p = fst (os_MkdirAll E (MakeDirIfNotExists E fs p) p ModePerm)"

definition prepare_dir_err :: "os_env \<Rightarrow> filesystem \<Rightarrow> path \<Rightarrow> errno option" where
  "prepare_dir_err E fs p = snd (os_MkdirAll E (MakeDirIfNotExists E fs p) p ModePerm)"

subsection \<open>Package \<open>path/filepath\<close> on relative paths\<close>

fun split_sep :: "string \<Rightarrow> string list" where
  "split_sep [] = [] # []"
| "split_sep (c # cs) =
     (if c = CHR ''/'' then [] # split_sep cs
      else (case split_sep cs of [] \<Rightarrow> [c] # [] | x # xs \<Rightarrow> (c # x) # xs))"

text \<open>
  \<open>Clean\<close> on the components of a relative path: empty components and \<open>.\<close> vanish, \<open>..\<close>
  removes the component before it unless that is \<open>..\<close> itself or missing.
\<close>

fun clean_elems :: "path \<Rightarrow> string list \<Rightarrow> path" where
  "clean_elems acc [] = acc"
| "clean_elems acc (e # es) =
     (if e = [] \<or> e = ''.'' then clean_elems acc es
      else if e = ''..'' \<and> acc \<noteq> [] \<and> last acc \<noteq> ''..'' then clean_elems (butlast acc) es
      else clean_elems (acc @ [e]) es)"

text \<open>\<open>filepath.Join\<close> of elements the first of which is not rooted.\<close>

definition filepath_Join :: "string list \<Rightarrow> path" where
  "filepath_Join elems = clean_elems [] (concat (map split_sep elems))"

text \<open>\<open>filepath.Join(dir, name)\<close> for a directory that is already a clean path.\<close>

definition join_dir :: "path \<Rightarrow> string \<Rightarrow> path" where
  "join_dir dir name = clean_elems [] (dir @ split_sep name)"

text \<open>\<open>filepath.Base\<close>: the last element; \<open>.\<close> for the empty path, \<open>/\<close> for slashes only.\<close>

definition filepath_Base :: "string \<Rightarrow> string" where
  "filepath_Base p =
     (if p = [] then ''.''
      else let q = rev (dropWhile (\<lambda>c. c = CHR ''/'') (rev p));
               b = rev (takeWhile (\<lambda>c. c \<noteq> CHR ''/'') (rev q))
           in if b = [] then ''/'' else b)"


section \<open>Response bodies and \<open>json.Unmarshal\<close> into \<open>map[string]Resp\<close>\<close>

text \<open>
  A recorded body is modelled by its JSON syntax tree, \<open>None\<close> when the scanner of
  \<open>encoding/json\<close> rejects the bytes (they are not well-formed JSON, or nested deeper than
  the package allows).  A number literal is kept as \<open>JInt i\<close> when it is an integer
  literal, and as \<open>JFrac m e\<close>, standing for \<open>m\<close> times 10 to the power \<open>e\<close>, when it has a
  fraction or an exponent: the form decides whether it fits an \<open>int\<close> field, the value
  whether it fits the \<open>float64\<close> of an \<open>any\<close> field.  Number literals are taken to have
  at most 800 digits and an exponent below 10000 in size: \<open>strconv\<close> reads no more of a
  literal than that.  The members of an object are kept in order, duplicates included.
\<close>

datatype json =
    JNull
  | JBool bool
  | JInt int
  | JFrac int int
  | JString string
  | JArray "json list"
  | JObject "(string \<times> json) list"

record Resp =
  Code :: int
  ApiStatus :: int
  Message :: string
  Data :: "json option"
  MetaData :: "json option"

definition zero_Resp :: Resp where
  "zero_Resp = \<lparr>Code = 0, ApiStatus = 0, Message = [], Data = None, MetaData = None\<rparr>"

datatype json_error = SyntaxError | UnmarshalTypeError

text \<open>
  The field of a key: the exact tag, else the tag with the same folded name.  Folding
  maps ASCII letters to upper case and the two runes that fold to ASCII letters, the long
  s (bytes C5 BF) and the Kelvin sign (bytes E2 84 AA), to \<open>S\<close> and \<open>K\<close>; any other byte
  stays outside ASCII and is kept.
\<close>

datatype field = F_code | F_api_status | F_message | F_data | F_meta_data

definition field_tags :: "(string \<times> field) list" where
  "field_tags = [(''code'', F_code), (''api_status'', F_api_status), (''message'', F_message),
                 (''data'', F_data), (''meta_data'', F_meta_data)]"

definition upper_ascii :: "char \<Rightarrow> char" where
  "upper_ascii c =
     (if 97 \<le> (of_char c :: nat) \<and> (of_char c :: nat) \<le> 122
      then char_of ((of_char c :: nat) - 32) else c)"

fun foldName :: "string \<Rightarrow> string" where
  "foldName [] = []"
| "foldName (c # cs) =
     (if c = CHR 0xC5 \<and> take 1 cs = [CHR 0xBF] then CHR ''S'' # foldName (drop 1 cs)
      else if c = CHR 0xE2 \<and> take 2 cs = [CHR 0x84, CHR 0xAA] then CHR ''K'' # foldName (drop 2 cs)
      else upper_ascii c # foldName cs)"

definition find_field :: "string \<Rightarrow> field option" where
  "find_field key =
     (case map_of field_tags key of
        Some f \<Rightarrow> Some f
      | None \<Rightarrow> map_of (map (\<lambda>(tag, f). (foldName tag, f)) field_tags) (foldName key))"

text \<open>Go's \<open>int\<close> on a 64-bit platform.\<close>

definition in_int_range :: "int \<Rightarrow> bool" where
  "in_int_range i = (- (2 ^ 63) \<le> i \<and> i < 2 ^ 63)"

text \<open>
  Storing a value in a field gives the new field and whether a type error is saved.
  \<open>null\<close> leaves an \<open>int\<close> or \<open>string\<close> untouched and is no error.
\<close>

fun store_int :: "json \<Rightarrow> int \<Rightarrow> int \<times> bool" where
  "store_int (JInt i) old = (if in_int_range i then (i, False) else (old, True))"
| "store_int JNull old = (old, False)"
| "store_int v old = (old, True)"

fun store_string :: "json \<Rightarrow> string \<Rightarrow> string \<times> bool" where
  "store_string (JString s) old = (s, False)"
| "store_string JNull old = (old, False)"
| "store_string v old = (old, True)"

text \<open>
  A number stored in an \<open>any\<close> field, or anywhere inside an array or object stored there,
  is converted by \<open>strconv.ParseFloat\<close>, which rounds to the nearest \<open>float64\<close>, ties to
  even, and reports a range error when that is infinite: from the midpoint between the
  largest \<open>float64\<close> and 2 to the power 1024 on.  The decoder saves the error as a type
  error and leaves nil in that place.
\<close>

definition float64_limit :: int where
  "float64_limit = 2 ^ 1024 - 2 ^ 970"

definition float64_overflow :: "int \<Rightarrow> int \<Rightarrow> bool" where
  "float64_overflow m e =
     (if 0 \<le> e then float64_limit \<le> \<bar>m\<bar> * 10 ^ nat e
      else float64_limit * 10 ^ nat (- e) \<le> \<bar>m\<bar>)"

primrec overflows :: "json \<Rightarrow> bool" where
  "overflows JNull = False"
| "overflows (JBool b) = False"
| "overflows (JInt i) = float64_overflow i 0"
| "overflows (JFrac m e) = float64_overflow m e"
| "overflows (JString s) = False"
| "overflows (JArray vs) = list_ex id (map overflows vs)"
| "overflows (JObject ms) = list_ex snd (map (map_prod id overflows) ms)"

text \<open>The decoded value as a tree: nil, written \<open>JNull\<close>, where a number is out of range.\<close>

primrec nil_overflows :: "json \<Rightarrow> json" where
  "nil_overflows JNull = JNull"
| "nil_overflows (JBool b) = JBool b"
| "nil_overflows (JInt i) = (if float64_overflow i 0 then JNull else JInt i)"
| "nil_overflows (JFrac m e) = (if float64_overflow m e then JNull else JFrac m e)"
| "nil_overflows (JString s) = JString s"
| "nil_overflows (JArray vs) = JArray (map nil_overflows vs)"
| "nil_overflows (JObject ms) = JObject (map (map_prod id nil_overflows) ms)"

text \<open>
  Storing a value in an \<open>any\<close> field: \<open>null\<close> makes it nil; a number out of range leaves
  the field as it was and is a type error; any other value is stored, with a type error
  when a number inside it is out of range.
\<close>

fun store_any :: "json \<Rightarrow> json option \<Rightarrow> json option \<times> bool" where
  "store_any JNull old = (None, False)"
| "store_any (JInt i) old = (if float64_overflow i 0 then (old, True) else (Some (JInt i), False))"
| "store_any (JFrac m e) old =
     (if float64_overflow m e then (old, True) else (Some (JFrac m e), False))"
| "store_any v old = (Some (nil_overflows v), overflows v)"

text \<open>One member of an object decoded into the struct; an unknown key is skipped.\<close>

definition store_member :: "string \<times> json \<Rightarrow> Resp \<times> bool \<Rightarrow> Resp \<times> bool" where
  "store_member kv acc =
     (case acc of (r, bad) \<Rightarrow>
      (case find_field (fst kv) of
         None \<Rightarrow> (r, bad)
       | Some F_code \<Rightarrow>
           (case store_int (snd kv) (Code r) of (i, e) \<Rightarrow> (r\<lparr>Code := i\<rparr>, bad \<or> e))
       | Some F_api_status \<Rightarrow>
           (case store_int (snd kv) (ApiStatus r) of (i, e) \<Rightarrow> (r\<lparr>ApiStatus := i\<rparr>, bad \<or> e))
       | Some F_message \<Rightarrow>
           (case store_string (snd kv) (Message r) of (m, e) \<Rightarrow> (r\<lparr>Message := m\<rparr>, bad \<or> e))
       | Some F_data \<Rightarrow>
           (case store_any (snd kv) (Data r) of (d, e) \<Rightarrow> (r\<lparr>Data := d\<rparr>, bad \<or> e))
       | Some F_meta_data \<Rightarrow>
           (case store_any (snd kv) (MetaData r) of (d, e) \<Rightarrow> (r\<lparr>MetaData := d\<rparr>, bad \<or> e))))"

text \<open>
  A value decoded into a fresh \<open>Resp\<close>: an object member by member, \<open>null\<close> nothing, any
  other value a type error.
\<close>

fun decode_Resp :: "json \<Rightarrow> Resp \<times> bool" where
  "decode_Resp (JObject members) = foldl (\<lambda>acc kv. store_member kv acc) (zero_Resp, False) members"
| "decode_Resp JNull = (zero_Resp, False)"
| "decode_Resp v = (zero_Resp, True)"

text \<open>
  The members of the outer object, in order: each value is decoded into a fresh element
  that is stored under its key, so a later duplicate wins; the first type error is kept
  and decoding goes on.
\<close>

fun decode_map :: "(string \<times> json) list \<Rightarrow> (string \<Rightarrow> Resp option) \<times> bool
                   \<Rightarrow> (string \<Rightarrow> Resp option) \<times> bool" where
  "decode_map [] acc = acc"
| "decode_map ((k, v) # rest) (m, bad) =
     (case decode_Resp v of (r, e) \<Rightarrow> decode_map rest (m(k \<mapsto> r), bad \<or> e))"

text \<open>\<open>json.Unmarshal(body, &outer)\<close> for the nil map \<open>outer\<close>: the map and the error.\<close>

fun Unmarshal :: "json option \<Rightarrow> (string \<Rightarrow> Resp option) \<times> json_error option" where
  "Unmarshal None = (Map.empty, Some SyntaxError)"
| "Unmarshal (Some (JObject members)) =
     (case decode_map members (Map.empty, False) of
        (m, bad) \<Rightarrow> (m, if bad then Some UnmarshalTypeError else None))"
| "Unmarshal (Some JNull) = (Map.empty, None)"
| "Unmarshal (Some v) = (Map.empty, Some UnmarshalTypeError)"

section \<open>Test cases and the assertion mode\<close>

text \<open>
  The handler under test is a function from the request that \<open>ExecuteHandler\<close> builds to
  the body it leaves in the recorder; the method and the URL are taken to be ones that
  \<open>http.NewRequest\<close> accepts, and the handler to return.  The handles \<open>T\<close> and \<open>B\<close> of
  the host framework are not fields of the model: what the code does with them (failing
  the test, logging) is in the results.
\<close>

record request =
  req_Method :: string
  req_URL :: string
  req_Body :: string
  req_Header :: "(string \<times> string) list"
  req_Keys :: "(string \<times> string) list"
  req_Params :: "(string \<times> string) list"

record APITestCase =
  Name :: string
  Method :: string
  URL :: string
  HandlerFunc :: "request \<Rightarrow> json option"
  RequestBody :: string
  PathParams :: "(string \<times> string) list"
  Headers :: "(string \<times> string) list"
  ExpectedCode :: int
  ContextKeys :: "(string \<times> string) list"
  FunctionName :: string

record config =
  LogResponse :: bool
  ProfilingOutputFormats :: "string list"
  EnabledProfilingTypes :: "string list"

definition SetAPITestPathParams :: "APITestCase \<Rightarrow> (string \<times> string) list" where
  "SetAPITestPathParams tc = PathParams tc"

definition ExecuteHandler :: "APITestCase \<Rightarrow> json option" where
  "ExecuteHandler tc =
     HandlerFunc tc
       \<lparr>req_Method = Method tc, req_URL = URL tc, req_Body = RequestBody tc,
        req_Header = Headers tc, req_Keys = ContextKeys tc,
        req_Params = SetAPITestPathParams tc\<rparr>"

text \<open>
  The verdict of a test: \<open>require\<close> stops it at the first failed check, with the message
  of that check (\<open>require.Equal\<close> is given none).
\<close>

datatype verdict = Passed | FailedNow string

definition msg_unmarshal :: string where
  "msg_unmarshal = ''Could not unmarshal JSON response''"

definition msg_missing :: string where
  "msg_missing = ''Missing '' @ [CHR 0x27] @ ''response'' @ [CHR 0x27] @ '' key in JSON''"

definition msg_not_equal :: string where
  "msg_not_equal = ''Not equal''"

text \<open>\<open>RunSingle\<close>: the bodies logged, and the verdict.\<close>

definition RunSingle :: "config \<Rightarrow> APITestCase \<Rightarrow> json option list \<times> verdict" where
  "RunSingle cfg tc =
     (let body = ExecuteHandler tc;
          logged = (if LogResponse cfg then [body] else [])
      in case Unmarshal body of
           (outer, Some err) \<Rightarrow> (logged, FailedNow msg_unmarshal)
         | (outer, None) \<Rightarrow>
             (case outer ''response'' of
                None \<Rightarrow> (logged, FailedNow msg_missing)
              | Some resp \<Rightarrow>
                  if ExpectedCode tc = Code resp then (logged, Passed)
                  else (logged, FailedNow msg_not_equal)))"


section \<open>The profiling pipeline\<close>

text \<open>
  Every effect of the pipeline on the outside is an event of a trace, in the order of
  the calls.  A temporary file is named by the number of its creation, which is what
  makes the names of \<open>os.CreateTemp\<close> fresh.  What the outside answers is a parameter of
  the model and may depend on everything that happened before: whether a temporary file
  can be created, whether the CPU profile starts, whether the runtime knows a profile
  and can write it, what the rendering tool prints, whether the output file can be
  written.  The workload itself, \<open>B.RunParallel\<close> over the handler, is one event and is
  taken to return.
\<close>

datatype logmsg =
    InvalidFormat string         \<comment> \<open>Invalid profiling output format: format\<close>
  | SkippingProfile string       \<comment> \<open>Skipping kind profile: no output formats selected\<close>
  | TempFileFailed string        \<comment> \<open>Failed to create temp file for kind profile\<close>
  | WriteProfileFailed string    \<comment> \<open>Failed to write kind profile\<close>
  | ProfileWritten string        \<comment> \<open>kind profile written to temporary file\<close>
  | GenerateFailed string nat    \<comment> \<open>Failed to generate format for profile file\<close>
  | WriteFailed string path      \<comment> \<open>Failed to write format to output path\<close>
  | Saved string path            \<comment> \<open>FORMAT saved to output path\<close>

datatype event =
    TempCreated nat string       \<comment> \<open>\<open>os.CreateTemp("", pattern)\<close> gave this file\<close>
  | TempClosed nat               \<comment> \<open>the deferred \<open>Close\<close>\<close>
  | TempRemoved nat              \<comment> \<open>the deferred \<open>os.Remove\<close>\<close>
  | Fatal string                 \<comment> \<open>\<open>require.NoError\<close> failed the benchmark\<close>
  | StartCPUProfile nat
  | SetBlockProfileRate nat
  | SetMutexProfileFraction nat
  | Workload                     \<comment> \<open>\<open>B.RunParallel\<close> over \<open>ExecuteHandler\<close>\<close>
  | StopCPUProfile
  | ProfileWriteTo string nat    \<comment> \<open>the profile of this kind written to the file\<close>
  | ToolRun string nat           \<comment> \<open>\<open>go tool pprof -format file\<close>\<close>
  | FileWritten path string      \<comment> \<open>\<open>os.WriteFile\<close> of the output\<close>
  | Log logmsg

record world =
  disk :: filesystem
  trace :: "event list"
  next_temp :: nat

record env = os_env +
  CreateTemp_ok :: "event list \<Rightarrow> string \<Rightarrow> bool"
  StartCPUProfile_ok :: "event list \<Rightarrow> bool"
  Lookup_found :: "event list \<Rightarrow> string \<Rightarrow> bool"
  WriteTo_ok :: "event list \<Rightarrow> string \<Rightarrow> bool"
  pprof_tool :: "event list \<Rightarrow> string \<Rightarrow> nat \<Rightarrow> string option"
  WriteFile_ok :: "event list \<Rightarrow> path \<Rightarrow> bool"

text \<open>
  How a call ends: it returns, the benchmark is failed by \<open>require\<close> (\<open>FailNow\<close> leaves
  through \<open>runtime.Goexit\<close>), or it panics.  Deferred calls run in all three cases.
\<close>

datatype outcome = Returned | FailedFatally | Panicked

definition emit :: "world \<Rightarrow> event list \<Rightarrow> world" where
  "emit w es = w\<lparr>trace := trace w @ es\<rparr>"

text \<open>\<open>GetProfileDir\<close>.\<close>

definition GetProfileDir :: "APITestCase \<Rightarrow> path" where
  "GetProfileDir tc =
     (let caseName = ReplaceAll (Name tc) (CHR '' '') ''_'';
          functionName = filepath_Base (FunctionName tc)
      in filepath_Join [''profiles'', functionName, caseName])"

text \<open>
  \<open>GenerateGraph\<close>: run the tool; on its failure log and return; write its output; on a
  write failure log and return; else log the success.  The format is not checked here.
\<close>

definition GenerateGraph :: "env \<Rightarrow> nat \<Rightarrow> path \<Rightarrow> string \<Rightarrow> world \<Rightarrow> world" where
  "GenerateGraph E profilePath outputPath format w =
     (case pprof_tool E (trace w) format profilePath of
        None \<Rightarrow> emit w [ToolRun format profilePath, Log (GenerateFailed format profilePath)]
      | Some output \<Rightarrow>
          let w1 = emit w [ToolRun format profilePath] in
          if \<not> WriteFile_ok E (trace w1) outputPath
          then emit w1 [Log (WriteFailed format outputPath)]
          else emit (w1\<lparr>disk := (disk w1)(outputPath \<mapsto> File output)\<rparr>)
                 [FileWritten outputPath output, Log (Saved format outputPath)])"

text \<open>The export loop of \<open>WriteProfileAndExport\<close>.\<close>

fun export_formats :: "env \<Rightarrow> nat \<Rightarrow> string \<Rightarrow> path \<Rightarrow> string list \<Rightarrow> world \<Rightarrow> world" where
  "export_formats E f profileType dir [] w = w"
| "export_formats E f profileType dir (format # rest) w =
     export_formats E f profileType dir rest
       (GenerateGraph E f (join_dir dir (profileType @ ''.'' @ format)) format w)"

text \<open>
  \<open>WriteProfileAndExport\<close>.  \<open>pprof.Lookup\<close> gives nil for a name the runtime does not
  know, and \<open>WriteTo\<close> on nil panics; the deferred \<open>Close\<close> and \<open>Remove\<close> run on every way
  out once the file exists.
\<close>

definition WriteProfileAndExport ::
    "config \<Rightarrow> env \<Rightarrow> string \<Rightarrow> path \<Rightarrow> world \<Rightarrow> outcome \<times> world" where
  "WriteProfileAndExport cfg E profileType dir w =
     (if length (ProfilingOutputFormats cfg) = 0
      then (Returned, emit w [Log (SkippingProfile profileType)])
      else if \<not> CreateTemp_ok E (trace w) (profileType @ ''.prof'')
      then (Returned, emit w [Log (TempFileFailed profileType)])
      else
        let f = next_temp w;
            w1 = emit (w\<lparr>next_temp := Suc f\<rparr>) [TempCreated f (profileType @ ''.prof'')];
            deferred = [TempClosed f, TempRemoved f]
        in if \<not> Lookup_found E (trace w1) profileType
           then (Panicked, emit w1 deferred)
           else if \<not> WriteTo_ok E (trace w1) profileType
           then (Returned, emit (emit w1 [Log (WriteProfileFailed profileType)]) deferred)
           else
             let w2 = emit w1 [ProfileWriteTo profileType f, Log (ProfileWritten profileType)];
                 w3 = export_formats E f profileType dir (ProfilingOutputFormats cfg) w2
             in (Returned, emit w3 deferred))"

text \<open>
  The loop of \<open>RunProfiling\<close> over the configured formats: it returns from \<open>RunProfiling\<close>
  at the first format that is neither \<open>png\<close> nor \<open>pdf\<close>.  The flag says whether the loop
  ran to its end.
\<close>

fun export_cpu :: "env \<Rightarrow> nat \<Rightarrow> path \<Rightarrow> string list \<Rightarrow> world \<Rightarrow> bool \<times> world" where
  "export_cpu E f dir [] w = (True, w)"
| "export_cpu E f dir (format # rest) w =
     (if format \<noteq> ''png'' \<and> format \<noteq> ''pdf''
      then (False, emit w [Log (InvalidFormat format)])
      else export_cpu E f dir rest
             (GenerateGraph E f (join_dir dir (''cpu.'' @ format)) format w))"

text \<open>The loop of \<open>RunProfiling\<close> over the enabled kinds; a panic leaves it.\<close>

fun export_snapshots :: "config \<Rightarrow> env \<Rightarrow> string list \<Rightarrow> path \<Rightarrow> world \<Rightarrow> outcome \<times> world" where
  "export_snapshots cfg E [] dir w = (Returned, w)"
| "export_snapshots cfg E (profile # rest) dir w =
     (case WriteProfileAndExport cfg E profile dir w of
        (Returned, w') \<Rightarrow> export_snapshots cfg E rest dir w'
      | (out, w') \<Rightarrow> (out, w'))"

text \<open>\<open>RunProfiling\<close> from the start of the CPU profile on, the deferred calls excluded.\<close>

definition profile_run ::
    "config \<Rightarrow> env \<Rightarrow> path \<Rightarrow> nat \<Rightarrow> world \<Rightarrow> outcome \<times> world" where
  "profile_run cfg E profileDir f w =
     (if \<not> StartCPUProfile_ok E (trace w)
      then (FailedFatally, emit w [Fatal ''Failed to start CPU profile''])
      else
        let w1 = emit w [StartCPUProfile f, SetBlockProfileRate 1, SetMutexProfileFraction 1,
                         Workload, StopCPUProfile]
        in case export_cpu E f profileDir (ProfilingOutputFormats cfg) w1 of
             (False, w2) \<Rightarrow> (Returned, w2)
           | (True, w2) \<Rightarrow> export_snapshots cfg E (EnabledProfilingTypes cfg) profileDir w2)"

text \<open>
  \<open>RunProfiling\<close>.  The deferred \<open>Close\<close> and \<open>Remove\<close> of the CPU file are registered
  once the file exists, and run however the rest ends.
\<close>

definition RunProfiling :: "config \<Rightarrow> env \<Rightarrow> APITestCase \<Rightarrow> world \<Rightarrow> outcome \<times> world" where
  "RunProfiling cfg E tc w =
     (if length (ProfilingOutputFormats cfg) = 0 then (Returned, w)
      else
        let profileDir = GetProfileDir tc;
            w0 = w\<lparr>disk := prepare_dir (os_env.truncate E) (disk w) profileDir\<rparr>
        in if \<not> CreateTemp_ok E (trace w0) ''cpu_profile_*.prof''
           then (FailedFatally, emit w0 [Fatal ''Failed to create temp CPU profile file''])
           else
             let f = next_temp w0;
                 w1 = emit (w0\<lparr>next_temp := Suc f\<rparr>) [TempCreated f ''cpu_profile_*.prof'']
             in case profile_run cfg E profileDir f w1 of
                  (out, w2) \<Rightarrow> (out, emit w2 [TempClosed f, TempRemoved f]))"


section \<open>The notions of the claim about the assertion mode\<close>

text \<open>
  The documented shape of a body, \<open>{"response": {"code": int, "api_status": int,
  "message": string, "data"?: any, "meta_data"?: any}}\<close>: one outer member \<open>response\<close>, an
  object whose members are documented ones, each at most once and of its type, an
  integer being a literal in the range of \<open>int\<close> and \<open>any\<close> a value whose numbers are all
  in the range of \<open>float64\<close>.  \<open>shape_code\<close> gives the code \<open>X\<close> of a body of that shape, and
  \<open>None\<close> for any other body.
\<close>

definition documented_member :: "string \<times> json \<Rightarrow> bool" where
  "documented_member kv =
     (case kv of (k, v) \<Rightarrow>
        if k = ''code'' \<or> k = ''api_status'' then (case v of JInt i \<Rightarrow> in_int_range i | _ \<Rightarrow> False)
        else if k = ''message'' then (case v of JString s \<Rightarrow> True | _ \<Rightarrow> False)
        else (k = ''data'' \<or> k = ''meta_data'') \<and> \<not> overflows v)"

definition shape_members :: "json option \<Rightarrow> (string \<times> json) list option" where
  "shape_members body =
     (case body of
        Some (JObject outer) \<Rightarrow>
          (case outer of
             [kv] \<Rightarrow>
               (case snd kv of
                  JObject members \<Rightarrow> if fst kv = ''response'' then Some members else None
                | _ \<Rightarrow> None)
           | _ \<Rightarrow> None)
      | _ \<Rightarrow> None)"

definition shape_code :: "json option \<Rightarrow> int option" where
  "shape_code body =
     (case shape_members body of
        None \<Rightarrow> None
      | Some members \<Rightarrow>
          if distinct (map fst members) \<and> list_all documented_member members
          then (case map_of members ''code'' of Some (JInt X) \<Rightarrow> Some X | _ \<Rightarrow> None)
          else None)"

text \<open>A test case whose handler answers with the given body.\<close>

definition tc_body :: "json option \<Rightarrow> int \<Rightarrow> APITestCase" where
  "tc_body body expected =
     \<lparr>Name = ''case'', Method = ''GET'', URL = ''/example'', HandlerFunc = (\<lambda>r. body),
      RequestBody = [], PathParams = [], Headers = [], ExpectedCode = expected,
      ContextKeys = [], FunctionName = ''TestExample''\<rparr>"

section \<open>The notions of the claims about the pipeline\<close>

text \<open>The events that a call added to the trace.\<close>

definition new_events :: "world \<Rightarrow> world \<Rightarrow> event list" where
  "new_events w w' = drop (length (trace w)) (trace w')"

text \<open>How often a temporary file was created, and how often it was removed.\<close>

definition creations :: "event list \<Rightarrow> nat \<Rightarrow> nat" where
  "creations es f = length (filter (\<lambda>e. case e of TempCreated g p \<Rightarrow> g = f | _ \<Rightarrow> False) es)"

definition removals :: "event list \<Rightarrow> nat \<Rightarrow> nat" where
  "removals es f = length (filter (\<lambda>e. e = TempRemoved f) es)"

text \<open>
  A call from \<open>w\<close> to \<open>w'\<close> cleans up: it only adds events, the temporary files it creates
  are the fresh ones from \<open>next_temp w\<close> up to \<open>next_temp w'\<close>, each is created once, and
  each file is removed by the call as often as it is created by it, so once or never.
\<close>

definition cleans_up :: "world \<Rightarrow> world \<Rightarrow> bool" where
  "cleans_up w w' =
     (trace w' = trace w @ new_events w w' \<and> next_temp w \<le> next_temp w' \<and>
      (\<forall>f. creations (new_events w w') f = (if next_temp w \<le> f \<and> f < next_temp w' then 1 else 0) \<and>
           removals (new_events w w') f = creations (new_events w w') f))"

text \<open>An export: the rendering tool is run, or an output file is written.\<close>

definition is_export :: "event \<Rightarrow> bool" where
  "is_export e = (case e of ToolRun format f \<Rightarrow> True | FileWritten p out \<Rightarrow> True | _ \<Rightarrow> False)"

text \<open>The runs of the rendering tool among some events, in order.\<close>

definition tool_runs :: "event list \<Rightarrow> event list" where
  "tool_runs es = filter (\<lambda>e. case e of ToolRun format f \<Rightarrow> True | _ \<Rightarrow> False) es"

definition supported :: "string \<Rightarrow> bool" where
  "supported format = (format = ''png'' \<or> format = ''pdf'')"

subsection \<open>Example inputs\<close>

text \<open>
  An outside where everything succeeds and the runtime knows the five profiles of the
  configuration comment; the test case of \<open>ExampleRunProfiling\<close>; an empty world.
\<close>

definition E_ok :: env where
  "E_ok = \<lparr>umask = 0x12, mkdir_denied = (\<lambda>p. False),
           CreateTemp_ok = (\<lambda>h pattern. True),
           StartCPUProfile_ok = (\<lambda>h. True),
           Lookup_found = (\<lambda>h kind. kind \<in> set [''heap'', ''goroutine'', ''block'', ''mutex'', ''threadcreate'']),
           WriteTo_ok = (\<lambda>h kind. True),
           pprof_tool = (\<lambda>h format f. Some ''image''),
           WriteFile_ok = (\<lambda>h p. True)\<rparr>"

definition tc_example :: APITestCase where
  "tc_example =
     \<lparr>Name = ''BenchmarkExample'', Method = ''GET'', URL = ''/example'',
      HandlerFunc = (\<lambda>r. Some (JObject [(''message'', JString ''success'')])),
      RequestBody = [], PathParams = [], Headers = [], ExpectedCode = 0,
      ContextKeys = [], FunctionName = ''ExampleRunProfiling''\<rparr>"

definition w_empty :: world where
  "w_empty = \<lparr>disk = Map.empty, trace = [], next_temp = 0\<rparr>"

definition cfg_of :: "string list \<Rightarrow> string list \<Rightarrow> config" where
  "cfg_of formats kinds =
     \<lparr>LogResponse = False, ProfilingOutputFormats = formats, EnabledProfilingTypes = kinds\<rparr>"

section \<open>Auxiliary notions of the proofs\<close>

text \<open>The 24 bits of three bytes, and the same value put together again from its four 6-bit digits.\<close>

definition val3 :: "byte \<Rightarrow> byte \<Rightarrow> byte \<Rightarrow> uint" where
  "val3 b0 b1 b2 = push_bit 16 (ucast b0) OR push_bit 8 (ucast b1) OR ucast b2"

definition reassemble :: "uint \<Rightarrow> uint" where
  "reassemble v = push_bit 18 (drop_bit 18 v AND 0x3F) OR push_bit 12 (drop_bit 12 v AND 0x3F)
      OR push_bit 6 (drop_bit 6 v AND 0x3F) OR (v AND 0x3F)"

text \<open>Events that create and remove no temporary file.\<close>

definition quiet :: "event list \<Rightarrow> bool" where
  "quiet es = (\<forall>f. creations es f = 0 \<and> removals es f = 0)"

section \<open>Proofs: the identifier helpers\<close>

subsection \<open>Hex digits\<close>

lemma mask_63: "(0x3F :: 'a::len word) = mask 6"
  by (simp add: mask_eq_exp_minus_1)

lemma mask_15: "(0xF :: 'a::len word) = mask 4"
  by (simp add: mask_eq_exp_minus_1)

lemma reverseHexTable_digit: "reverseHexTable c \<le> 0x0f \<longleftrightarrow> is_hex_digit c"
  by (simp add: reverseHexTable_def is_hex_digit_def)

lemma reverseHexTable_no_digit: "0x0f < reverseHexTable c \<longleftrightarrow> \<not> is_hex_digit c"
  by (simp add: reverseHexTable_digit [symmetric] not_le)

lemma hextable_reverse:
  "is_hex_digit c \<Longrightarrow> hextable ! unat (reverseHexTable c) = lower_hex c"
  by (auto simp add: reverseHexTable_def is_hex_digit_def hextable_def lower_hex_def)

lemma nibble_mask: "(a :: byte) \<le> 0x0f \<Longrightarrow> a AND mask 4 = a"
proof -
  assume "a \<le> 0x0f"
  then have "a < 2 ^ 4" by (simp add: word_le_nat_alt word_less_nat_alt)
  then show ?thesis by (rule less_mask_eq)
qed

lemma nibble_hi:
  assumes "(a :: byte) \<le> 0x0f" "(b :: byte) \<le> 0x0f"
  shows "drop_bit 4 (push_bit 4 a OR b) = a"
proof -
  have "drop_bit 4 (push_bit 4 (a AND mask 4) OR (b AND mask 4)) = a AND mask 4"
    by (rule bit_word_eqI) (auto simp: bit_simps)
  with assms show ?thesis by (simp add: nibble_mask)
qed

lemma nibble_lo:
  assumes "(a :: byte) \<le> 0x0f" "(b :: byte) \<le> 0x0f"
  shows "(push_bit 4 a OR b) AND 0xF = b"
proof -
  have "(push_bit 4 (a AND mask 4) OR (b AND mask 4)) AND mask 4 = b AND mask 4"
    by (rule bit_word_eqI) (auto simp: bit_simps)
  with assms show ?thesis by (simp add: nibble_mask mask_15)
qed

lemma hex_DecodeString_fmt_x:
  "hex_DecodeString s = Inr bs \<Longrightarrow> fmt_x bs = map lower_hex s"
proof (induction s arbitrary: bs rule: hex_DecodeString.induct)
  case 1
  then show ?case by (simp add: fmt_x_def)
next
  case (2 p)
  then show ?case by (simp split: if_splits)
next
  case (3 p q rest)
  let ?a = "reverseHexTable p" and ?b = "reverseHexTable q"
  from "3.prems" have a: "?a \<le> 0x0f" and b: "?b \<le> 0x0f"
    by (auto simp: Let_def not_less split: if_splits)
  from "3.prems" a b obtain bs' where bs': "hex_DecodeString rest = Inr bs'"
    and bs: "bs = (push_bit 4 ?a OR ?b) # bs'"
    by (auto simp: Let_def not_less split: if_splits sum.splits)
  have IH: "fmt_x bs' = map lower_hex rest"
    using "3.IH" [OF refl refl _ _ bs'] a b by (simp add: not_less)
  define x where "x = push_bit 4 ?a OR ?b"
  have x: "drop_bit 4 x = ?a" "x AND 0xF = ?b"
    unfolding x_def using a b by (rule nibble_hi, rule nibble_lo)
  have "fmt_x (x # bs') = [hextable ! unat ?a, hextable ! unat ?b] @ fmt_x bs'"
    unfolding fmt_x_def by (simp add: x)
  then have "fmt_x bs = [hextable ! unat ?a, hextable ! unat ?b] @ fmt_x bs'"
    by (simp add: bs x_def)
  then show ?case
    using a b IH by (simp add: hextable_reverse reverseHexTable_digit)
qed

lemma hex_DecodeString_length:
  "hex_DecodeString s = Inr bs \<Longrightarrow> length s = 2 * length bs"
  by (induction s arbitrary: bs rule: hex_DecodeString.induct)
     (auto simp: Let_def split: if_splits sum.splits)

lemma hex_DecodeString_ok_iff:
  "(\<exists>bs. hex_DecodeString s = Inr bs) \<longleftrightarrow> even (length s) \<and> (\<forall>c\<in>set s. is_hex_digit c)"
  by (induction s rule: hex_DecodeString.induct)
     (auto simp: Let_def reverseHexTable_no_digit split: if_splits sum.splits)

subsection \<open>Base64: decoding undoes encoding\<close>

lemma distinct_encodeStd: "distinct encodeStd"
  by (simp add: encodeStd_def)

lemma length_encodeStd: "length encodeStd = 64"
  by (simp add: encodeStd_def)

lemma decodeMap_encodeStd:
  assumes "i < 64" shows "decodeMap (encodeStd ! i) = of_nat i"
proof -
  have "map_of (zip encodeStd (map of_nat [0 ..< 64] :: byte list)) (encodeStd ! i)
        = Some (map of_nat [0 ..< 64] ! i)"
    using assms by (intro map_of_zip_nth) (simp_all add: length_encodeStd distinct_encodeStd)
  then show ?thesis using assms by (simp add: decodeMap_def)
qed

lemma sextet_less: "unat ((x :: uint) AND 0x3F) < 64"
proof -
  have "x AND 0x3F \<le> 0x3F" by (rule word_and_le1)
  then show ?thesis by (simp add: word_le_nat_alt)
qed

lemma decodeMap_enc: "decodeMap (enc (x AND 0x3F)) = ucast (x AND 0x3F)"
  unfolding enc_def by (simp add: decodeMap_encodeStd sextet_less)

lemma ucast_sextet: "ucast (ucast (x AND (0x3F :: uint)) :: byte) = x AND (0x3F :: uint)"
  unfolding mask_63 by (rule bit_word_eqI) (auto simp: bit_simps)

lemma decodeMap_enc_valid: "decodeMap (enc (x AND 0x3F)) \<noteq> 0xff"
proof
  assume "decodeMap (enc (x AND 0x3F)) = 0xff"
  then have "(ucast (x AND (0x3F :: uint)) :: byte) = 0xff" by (simp add: decodeMap_enc)
  then have "ucast (ucast (x AND (0x3F :: uint)) :: byte) = (ucast (0xff :: byte) :: uint)" by simp
  then have "x AND 0x3F = (0xff :: uint)" by (simp add: ucast_sextet)
  then have "unat (x AND 0x3F) = 255" by simp
  with sextet_less [of x] show False by simp
qed

lemma bit_reassemble: "bit (reassemble v) n \<longleftrightarrow> n < 24 \<and> bit v n"
proof -
  have "n < 6 \<or> (6 \<le> n \<and> n < 12) \<or> (12 \<le> n \<and> n < 18) \<or> (18 \<le> n \<and> n < 24) \<or> 24 \<le> n"
    by arith
  then show ?thesis
    unfolding reassemble_def mask_63
    by (elim disjE) (auto simp: bit_simps dest: bit_imp_le_length)
qed

lemma byte0: "ucast (drop_bit 16 (reassemble (val3 b0 b1 b2))) = b0"
  by (rule bit_word_eqI) (auto simp: bit_simps bit_reassemble val3_def dest: bit_imp_le_length)

lemma byte1: "ucast (drop_bit 8 (reassemble (val3 b0 b1 b2))) = b1"
  by (rule bit_word_eqI) (auto simp: bit_simps bit_reassemble val3_def dest: bit_imp_le_length)

lemma byte2: "ucast (reassemble (val3 b0 b1 b2)) = b2"
  by (rule bit_word_eqI) (auto simp: bit_simps bit_reassemble val3_def dest: bit_imp_le_length)

lemma Decode_digit:
  "decodeMap c \<noteq> 0xff \<Longrightarrow>
   Decode dbuf (c # src) =
     (if length dbuf = 3 then
        (case Decode [] src of
           Inl e \<Rightarrow> Inl e
         | Inr bs \<Rightarrow> Inr (quantum_bytes (dbuf @ [decodeMap c]) @ bs))
      else Decode (dbuf @ [decodeMap c]) src)"
  by (simp add: Let_def)

lemma decodeMap_padChar: "decodeMap padChar = 0xff"
proof -
  have "map_of (zip encodeStd (map of_nat [0 ..< 64] :: byte list)) padChar = None"
    by (subst map_of_zip_is_None) (simp_all add: encodeStd_def padChar_def)
  then show ?thesis by (simp add: decodeMap_def)
qed

lemma Decode_pad3: "length dbuf = 3 \<Longrightarrow> Decode dbuf [padChar] = Inr (quantum_bytes dbuf)"
  by (simp add: decodeMap_padChar) (simp add: padChar_def is_newline_def)

lemma Decode_pad2:
  "length dbuf = 2 \<Longrightarrow> Decode dbuf [padChar, padChar] = Inr (quantum_bytes dbuf)"
  by (simp add: decodeMap_padChar) (simp add: padChar_def is_newline_def)

lemma Decode_pad:
  "Decode [d0, d1, d2] [padChar] = Inr (quantum_bytes [d0, d1, d2])"
  "Decode [d0, d1] [padChar, padChar] = Inr (quantum_bytes [d0, d1])"
  by (simp_all add: Decode_pad3 Decode_pad2 del: Decode.simps)

lemma quantum_val_sextets:
  "quantum_val (ucast (drop_bit 18 v AND 0x3F)) (ucast (drop_bit 12 v AND 0x3F))
               (ucast (drop_bit 6 v AND 0x3F)) (ucast (v AND 0x3F)) = reassemble v"
  unfolding quantum_val_def reassemble_def by (simp only: ucast_sextet)

lemma quantum_bytes_4: "quantum_bytes [d0, d1, d2, d3] =
   [ucast (drop_bit 16 (quantum_val d0 d1 d2 d3)), ucast (drop_bit 8 (quantum_val d0 d1 d2 d3)),
    ucast (quantum_val d0 d1 d2 d3)]"
  by (simp add: quantum_bytes_def Let_def)

lemma quantum_bytes_3: "quantum_bytes [d0, d1, d2] =
   [ucast (drop_bit 16 (quantum_val d0 d1 d2 0)), ucast (drop_bit 8 (quantum_val d0 d1 d2 0))]"
  by (simp add: quantum_bytes_def numeral_3_eq_3 Let_def)

lemma quantum_bytes_2: "quantum_bytes [d0, d1] =
   [ucast (drop_bit 16 (quantum_val d0 d1 0 0))]"
  by (simp add: quantum_bytes_def numeral_2_eq_2 Let_def)

lemma bit_val3: "bit (val3 b0 b1 b2) n \<longleftrightarrow>
   (n < 8 \<and> bit b2 n) \<or> (8 \<le> n \<and> n < 16 \<and> bit b1 (n - 8)) \<or> (16 \<le> n \<and> n < 24 \<and> bit b0 (n - 16))"
  unfolding val3_def by (auto simp: bit_simps dest: bit_imp_le_length)

lemma bit_quantum3: "bit (quantum_val (ucast (drop_bit 18 v AND 0x3F)) (ucast (drop_bit 12 v AND 0x3F))
               (ucast (drop_bit 6 v AND 0x3F)) 0) n \<longleftrightarrow> 6 \<le> n \<and> n < 24 \<and> bit v n"
proof -
  have "n < 6 \<or> (6 \<le> n \<and> n < 12) \<or> (12 \<le> n \<and> n < 18) \<or> (18 \<le> n \<and> n < 24) \<or> 24 \<le> n"
    by arith
  then show ?thesis
    unfolding quantum_val_def mask_63
    by (elim disjE) (auto simp: bit_simps dest: bit_imp_le_length)
qed

lemma bit_quantum2: "bit (quantum_val (ucast (drop_bit 18 v AND 0x3F)) (ucast (drop_bit 12 v AND 0x3F))
               0 0) n \<longleftrightarrow> 12 \<le> n \<and> n < 24 \<and> bit v n"
proof -
  have "n < 6 \<or> (6 \<le> n \<and> n < 12) \<or> (12 \<le> n \<and> n < 18) \<or> (18 \<le> n \<and> n < 24) \<or> 24 \<le> n"
    by arith
  then show ?thesis
    unfolding quantum_val_def mask_63
    by (elim disjE) (auto simp: bit_simps dest: bit_imp_le_length)
qed

lemma bytes3: 
  "ucast (drop_bit 16 (quantum_val (ucast (drop_bit 18 (val3 b0 b1 0) AND 0x3F)) (ucast (drop_bit 12 (val3 b0 b1 0) AND 0x3F))
               (ucast (drop_bit 6 (val3 b0 b1 0) AND 0x3F)) 0)) = b0"
  "ucast (drop_bit 8 (quantum_val (ucast (drop_bit 18 (val3 b0 b1 0) AND 0x3F)) (ucast (drop_bit 12 (val3 b0 b1 0) AND 0x3F))
               (ucast (drop_bit 6 (val3 b0 b1 0) AND 0x3F)) 0)) = b1"
  by (rule bit_word_eqI; auto simp: bit_ucast_iff bit_drop_bit_eq bit_quantum3 bit_val3 dest: bit_imp_le_length)+

lemma bytes2: 
  "ucast (drop_bit 16 (quantum_val (ucast (drop_bit 18 (val3 b0 0 0) AND 0x3F)) (ucast (drop_bit 12 (val3 b0 0 0) AND 0x3F))
               0 0)) = b0"
  by (rule bit_word_eqI; auto simp: bit_ucast_iff bit_drop_bit_eq bit_quantum2 bit_val3 dest: bit_imp_le_length)+

lemma EncodeToString_3:
  "EncodeToString (b0 # b1 # b2 # rest) =
     enc (drop_bit 18 (val3 b0 b1 b2) AND 0x3F) # enc (drop_bit 12 (val3 b0 b1 b2) AND 0x3F) #
     enc (drop_bit 6 (val3 b0 b1 b2) AND 0x3F) # enc (val3 b0 b1 b2 AND 0x3F) # EncodeToString rest"
  by (simp add: val3_def Let_def)

lemma EncodeToString_2:
  "EncodeToString [b0, b1] =
     [enc (drop_bit 18 (val3 b0 b1 0) AND 0x3F), enc (drop_bit 12 (val3 b0 b1 0) AND 0x3F),
      enc (drop_bit 6 (val3 b0 b1 0) AND 0x3F), padChar]"
  by (simp add: val3_def Let_def)

lemma EncodeToString_1:
  "EncodeToString [b0] =
     [enc (drop_bit 18 (val3 b0 0 0) AND 0x3F), enc (drop_bit 12 (val3 b0 0 0) AND 0x3F),
      padChar, padChar]"
  by (simp add: val3_def Let_def)

lemma Decode_enc:
  "Decode dbuf (enc (x AND 0x3F) # src) =
     (if length dbuf = 3 then
        (case Decode [] src of
           Inl e \<Rightarrow> Inl e
         | Inr bs \<Rightarrow> Inr (quantum_bytes (dbuf @ [ucast (x AND 0x3F)]) @ bs))
      else Decode (dbuf @ [ucast (x AND 0x3F)]) src)"
  using Decode_digit [OF decodeMap_enc_valid, of dbuf x src] by (simp only: decodeMap_enc)

lemma Decode_enc_steps:
  "Decode [] (enc (x AND 0x3F) # src) = Decode [ucast (x AND 0x3F)] src"
  "Decode [d0] (enc (x AND 0x3F) # src) = Decode [d0, ucast (x AND 0x3F)] src"
  "Decode [d0, d1] (enc (x AND 0x3F) # src) = Decode [d0, d1, ucast (x AND 0x3F)] src"
  "Decode [d0, d1, d2] (enc (x AND 0x3F) # src) =
     (case Decode [] src of
        Inl e \<Rightarrow> Inl e
      | Inr bs \<Rightarrow> Inr (quantum_bytes [d0, d1, d2, ucast (x AND 0x3F)] @ bs))"
  by (simp_all add: Decode_enc del: Decode.simps split: sum.split)

lemma Decode_EncodeToString: "Decode [] (EncodeToString bs) = Inr bs"
proof (induction bs rule: EncodeToString.induct)
  case (1 b0 b1 b2 rest)
  show ?case
    unfolding EncodeToString_3
    by (simp only: Decode_enc_steps "1.IH" quantum_bytes_4
          quantum_val_sextets byte0 byte1 byte2 sum.case append_Cons append_Nil)
next
  case (2 b0 b1)
  show ?case
    unfolding EncodeToString_2
    by (simp only: Decode_enc_steps Decode_pad
          quantum_bytes_3 bytes3)
next
  case (3 b0)
  show ?case
    unfolding EncodeToString_1
    by (simp only: Decode_enc_steps Decode_pad
          quantum_bytes_2 bytes2)
next
  case 4
  show ?case by simp
qed

subsection \<open>The wrapper and the layout of a UUID\<close>

lemma hex_DecodeString_valid_hex:
  "(\<exists>bs. hex_DecodeString s = Inr bs) \<longleftrightarrow> valid_hex s"
  by (simp add: hex_DecodeString_ok_iff valid_hex_def list_all_iff)

lemma fmt_x_Cons: "fmt_x (b # bs) = hextable ! unat (drop_bit 4 b) # hextable ! unat (b AND 0xF) # fmt_x bs"
  by (simp add: fmt_x_def)

lemma fmt_x_Nil: "fmt_x [] = []"
  by (simp add: fmt_x_def)

lemma fmt_x_take: "fmt_x (take n bs) = take (2 * n) (fmt_x bs)"
proof (induction bs arbitrary: n)
  case Nil
  then show ?case by (simp add: fmt_x_Nil)
next
  case (Cons b bs)
  then show ?case by (cases n) (simp_all add: fmt_x_Cons fmt_x_Nil)
qed

lemma fmt_x_drop: "fmt_x (drop n bs) = drop (2 * n) (fmt_x bs)"
proof (induction bs arbitrary: n)
  case Nil
  then show ?case by (simp add: fmt_x_Nil)
next
  case (Cons b bs)
  then show ?case by (cases n) (simp_all add: fmt_x_Cons fmt_x_Nil)
qed

lemma ReplaceAll_hex: "list_all is_hex_digit s \<Longrightarrow> ReplaceAll s (CHR ''-'') [] = s"
  by (induction s) (auto simp: ReplaceAll_def is_hex_digit_def)

lemma ReplaceAll_append: "ReplaceAll (s @ t) old new = ReplaceAll s old new @ ReplaceAll t old new"
  by (simp add: ReplaceAll_def)

lemma ReplaceAll_dash: "ReplaceAll (CHR ''-'' # s) (CHR ''-'') [] = ReplaceAll s (CHR ''-'') []"
  by (simp add: ReplaceAll_def)

lemma length_binPrefix: "length binPrefix = 12"
  by (simp add: binPrefix_def)

lemma length_binSuffix: "length binSuffix = 2"
  by (simp add: binSuffix_def)

lemma HasPrefix_wrap: "HasPrefix (binPrefix @ x) binPrefix"
  by (simp add: HasPrefix_def)

lemma HasSuffix_wrap: "HasSuffix (x @ binSuffix) binSuffix"
  by (simp add: HasSuffix_def)

lemma HasSuffix_wrap2: "HasSuffix (y @ x @ binSuffix) binSuffix"
  using HasSuffix_wrap [of "y @ x"] by simp

lemma Trim_wrap: "TrimSuffix (TrimPrefix (binPrefix @ x @ binSuffix) binPrefix) binSuffix = x"
  by (simp add: TrimPrefix_def HasPrefix_wrap TrimSuffix_def HasSuffix_wrap)

lemma lower_hex_dash: "lower_hex (CHR ''-'') = CHR ''-''"
  by (simp add: lower_hex_def)

lemma valid_uuid_split:
  assumes "valid_uuid u"
  obtains a b c d e where
    "u = a @ CHR ''-'' # b @ CHR ''-'' # c @ CHR ''-'' # d @ CHR ''-'' # e"
    "length a = 8" "length b = 4" "length c = 4" "length d = 4" "length e = 12"
    "list_all is_hex_digit (a @ b @ c @ d @ e)"
proof -
  from assms have len: "length u = 36" by (simp add: valid_uuid_def)
  have 1: "u = take 8 u @ u ! 8 # drop 9 u"
    using id_take_nth_drop [of 8 u] len by simp
  have 2: "drop 9 u = take 4 (drop 9 u) @ u ! 13 # drop 14 u"
    using id_take_nth_drop [of 4 "drop 9 u"] len by simp
  have 3: "drop 14 u = take 4 (drop 14 u) @ u ! 18 # drop 19 u"
    using id_take_nth_drop [of 4 "drop 14 u"] len by simp
  have 4: "drop 19 u = take 4 (drop 19 u) @ u ! 23 # drop 24 u"
    using id_take_nth_drop [of 4 "drop 19 u"] len by simp
  have "u = take 8 u @ CHR ''-'' # take 4 (drop 9 u) @ CHR ''-'' # take 4 (drop 14 u) @ CHR ''-'' #
            take 4 (drop 19 u) @ CHR ''-'' # drop 24 u"
    using 1 2 3 4 assms by (simp add: valid_uuid_def)
  moreover have "list_all is_hex_digit (take 8 u @ take 4 (drop 9 u) @ take 4 (drop 14 u) @
            take 4 (drop 19 u) @ drop 24 u)"
    using assms by (simp add: valid_uuid_def)
  ultimately show thesis
    using len by (intro that [of "take 8 u" "take 4 (drop 9 u)" "take 4 (drop 14 u)" "take 4 (drop 19 u)" "drop 24 u"]) simp_all
qed

lemma uuid_roundtrip_lower:
  assumes "valid_uuid u"
  shows "GetStringUUidFromBsonId (GetBsonIdFromUUId u) = (map lower_hex u, None)"
proof -
  from assms obtain a b c d e where
    u: "u = a @ CHR ''-'' # b @ CHR ''-'' # c @ CHR ''-'' # d @ CHR ''-'' # e"
    and len: "length a = 8" "length b = 4" "length c = 4" "length d = 4" "length e = 12"
    and hex: "list_all is_hex_digit (a @ b @ c @ d @ e)"
    by (rule valid_uuid_split)
  let ?s = "a @ b @ c @ d @ e"
  have strip: "ReplaceAll u (CHR ''-'') [] = ?s"
    using hex unfolding u by (simp add: ReplaceAll_append ReplaceAll_dash ReplaceAll_hex)
  have "valid_hex ?s" using hex len by (simp add: valid_hex_def)
  then obtain bs where bs: "hex_DecodeString ?s = Inr bs"
    using hex_DecodeString_valid_hex by blast
  have lbs: "length bs = 16"
    using hex_DecodeString_length [OF bs] len by simp
  have fx: "fmt_x bs = map lower_hex ?s" by (rule hex_DecodeString_fmt_x [OF bs])
  have enc: "GetBsonIdFromUUId u = binPrefix @ EncodeToString bs @ binSuffix"
    by (simp add: GetBsonIdFromUUId_def strip bs)
  have dec: "DecodeString (EncodeToString bs) = Inr bs"
    by (simp add: DecodeString_def Decode_EncodeToString)
  have "GetStringUUidFromBsonId (GetBsonIdFromUUId u) =
        (fmt_x (take 4 bs) @ ''-'' @ fmt_x (take 2 (drop 4 bs)) @ ''-'' @
         fmt_x (take 2 (drop 6 bs)) @ ''-'' @ fmt_x (take 2 (drop 8 bs)) @ ''-'' @
         fmt_x (take 6 (drop 10 bs)), None)"
    unfolding enc GetStringUUidFromBsonId_def
    by (simp add: HasPrefix_wrap HasSuffix_wrap2 Trim_wrap dec lbs)
  also have "\<dots> = (map lower_hex u, None)"
    unfolding fmt_x_take fmt_x_drop fx u using len by (simp add: lower_hex_dash)
  finally show ?thesis .
qed

lemma lower_hex_id_iff: "map lower_hex u = u \<longleftrightarrow> set u \<inter> set ''ABCDEF'' = {}"
proof -
  have c: "lower_hex c = c \<longleftrightarrow> c \<notin> set ''ABCDEF''" for c
    by (auto simp: lower_hex_def)
  have "map lower_hex u = u \<longleftrightarrow> (\<forall>c\<in>set u. lower_hex c = c)"
    by (induction u) auto
  then show ?thesis unfolding c by blast
qed

lemma GetStringUUidFromBsonId_cases:
  "GetStringUUidFromBsonId b =
     (if \<not> HasPrefix b binPrefix \<or> \<not> HasSuffix b binSuffix then ([], Some InvalidBinDataFormat)
      else case DecodeString (payload b) of
             Inl err \<Rightarrow> ([], Some err)
           | Inr bs \<Rightarrow>
               if length bs \<noteq> 16 then ([], Some InvalidUUIDByteLength)
               else (fmt_x (take 4 bs) @ ''-'' @ fmt_x (take 2 (drop 4 bs)) @ ''-'' @
                     fmt_x (take 2 (drop 6 bs)) @ ''-'' @ fmt_x (take 2 (drop 8 bs)) @ ''-'' @
                     fmt_x (take 6 (drop 10 bs)), None))"
  by (simp add: GetStringUUidFromBsonId_def payload_def Let_def)

section \<open>The claims about the identifier helpers\<close>

text \<open>
  C2, as stated: for every valid 36-character hyphenated UUID string \<open>u\<close>, decoding the
  encoding gives back \<open>u\<close> with no error.  This fails for a UUID written with upper-case
  hex digits, which \<open>GetBsonIdFromUUId\<close> accepts: the decoder prints lower case.
\<close>

theorem uuid_roundtrip_upper_case_counterexample:
  "valid_uuid ''123E4567-E89B-12D3-A456-426614174000'' \<and>
   GetStringUUidFromBsonId (GetBsonIdFromUUId ''123E4567-E89B-12D3-A456-426614174000'')
     = (''123e4567-e89b-12d3-a456-426614174000'', None) \<and>
   ''123e4567-e89b-12d3-a456-426614174000'' \<noteq> ''123E4567-E89B-12D3-A456-426614174000''"
  by code_simp

text \<open>
  C2, amended: for every valid 36-character hyphenated UUID string \<open>u\<close>, with hex digits
  of either case, \<open>GetStringUUidFromBsonId (GetBsonIdFromUUId u)\<close> returns \<open>u\<close> with its
  hex digits in lower case and no error; that is \<open>u\<close> itself exactly when \<open>u\<close> has no
  upper-case hex digit.
\<close>

theorem uuid_roundtrip:
  assumes "valid_uuid u"
  shows "GetStringUUidFromBsonId (GetBsonIdFromUUId u) = (map lower_hex u, None) \<and>
         (map lower_hex u = u \<longleftrightarrow> set u \<inter> set ''ABCDEF'' = {})"
  using uuid_roundtrip_lower [OF assms] lower_hex_id_iff by simp

theorem uuid_roundtrip_witness:
  "valid_uuid ''123e4567-e89b-12d3-a456-426614174000'' \<and>
   GetStringUUidFromBsonId (GetBsonIdFromUUId ''123e4567-e89b-12d3-a456-426614174000'')
     = (''123e4567-e89b-12d3-a456-426614174000'', None)"
proof -
  have v: "valid_uuid ''123e4567-e89b-12d3-a456-426614174000''" by code_simp
  have l: "map lower_hex ''123e4567-e89b-12d3-a456-426614174000''
           = ''123e4567-e89b-12d3-a456-426614174000''" by code_simp
  show ?thesis using v uuid_roundtrip [OF v] by (simp only: l simp_thms)
qed

text \<open>
  C7: \<open>GetStringUUidFromBsonId\<close> returns a non-nil error exactly when the input lacks the
  prefix \<open>BinData(0, '\<close> or the suffix \<open>')\<close>, or the wrapped payload fails to decode as
  base64, or it decodes to a byte sequence whose length is not 16; and then it returns no
  UUID string.
\<close>

theorem GetStringUUidFromBsonId_error_iff:
  "(snd (GetStringUUidFromBsonId b) \<noteq> None \<longleftrightarrow>
      \<not> HasPrefix b binPrefix \<or> \<not> HasSuffix b binSuffix \<or>
      (\<exists>err. DecodeString (payload b) = Inl err) \<or>
      (\<exists>bs. DecodeString (payload b) = Inr bs \<and> length bs \<noteq> 16)) \<and>
   (snd (GetStringUUidFromBsonId b) \<noteq> None \<longrightarrow> fst (GetStringUUidFromBsonId b) = [])"
  unfolding GetStringUUidFromBsonId_cases by (auto split: sum.splits)

theorem GetStringUUidFromBsonId_error_iff_witness:
  "HasPrefix (binPrefix @ ''AAAA'' @ binSuffix) binPrefix \<and>
   HasSuffix (binPrefix @ ''AAAA'' @ binSuffix) binSuffix \<and>
   DecodeString (payload (binPrefix @ ''AAAA'' @ binSuffix)) = Inr [0, 0, 0] \<and>
   snd (GetStringUUidFromBsonId (binPrefix @ ''AAAA'' @ binSuffix)) \<noteq> None \<and>
   fst (GetStringUUidFromBsonId (binPrefix @ ''AAAA'' @ binSuffix)) = []"
proof -
  let ?b = "binPrefix @ ''AAAA'' @ binSuffix"
  have hp: "HasPrefix ?b binPrefix" by (rule HasPrefix_wrap)
  have hs: "HasSuffix ?b binSuffix" by (rule HasSuffix_wrap2)
  have p: "payload ?b = ''AAAA''"
    unfolding payload_def by (rule Trim_wrap)
  have d: "DecodeString ''AAAA'' = Inr [0, 0, 0]" by code_simp
  have pd: "DecodeString (payload ?b) = Inr [0, 0, 0]" by (simp only: p d)
  have "length [0 :: byte, 0, 0] \<noteq> 16" by simp
  with pd have e: "\<exists>bs. DecodeString (payload ?b) = Inr bs \<and> length bs \<noteq> 16" by blast
  note t = GetStringUUidFromBsonId_error_iff [of ?b]
  from t e have n: "snd (GetStringUUidFromBsonId ?b) \<noteq> None" by blast
  from t n have "fst (GetStringUUidFromBsonId ?b) = []" by blast
  with n hp hs pd show ?thesis by blast
qed

text \<open>
  C10: when the input without its hyphens is not a valid hexadecimal string (odd length
  or a byte that is no hex digit), \<open>GetBsonIdFromUUId\<close> returns the empty string, its only
  result, so the caller gets no error; and the number of decoded bytes is never compared
  with 16: every hex string of even length, whatever its length, is encoded.
\<close>

theorem GetBsonIdFromUUId_unchecked:
  "(\<not> valid_hex (ReplaceAll s (CHR ''-'') []) \<longrightarrow> GetBsonIdFromUUId s = []) \<and>
   (valid_hex (ReplaceAll s (CHR ''-'') []) \<longrightarrow>
      (\<exists>bs. hex_DecodeString (ReplaceAll s (CHR ''-'') []) = Inr bs \<and>
            2 * length bs = length (ReplaceAll s (CHR ''-'') []) \<and>
            GetBsonIdFromUUId s = binPrefix @ EncodeToString bs @ binSuffix \<and>
            GetBsonIdFromUUId s \<noteq> []))"
proof (intro conjI impI)
  assume "\<not> valid_hex (ReplaceAll s (CHR ''-'') [])"
  then have "\<nexists>bs. hex_DecodeString (ReplaceAll s (CHR ''-'') []) = Inr bs"
    by (simp add: hex_DecodeString_valid_hex)
  then show "GetBsonIdFromUUId s = []"
    by (cases "hex_DecodeString (ReplaceAll s (CHR ''-'') [])") (simp_all add: GetBsonIdFromUUId_def)
next
  assume "valid_hex (ReplaceAll s (CHR ''-'') [])"
  then obtain bs where bs: "hex_DecodeString (ReplaceAll s (CHR ''-'') []) = Inr bs"
    using hex_DecodeString_valid_hex by blast
  have "GetBsonIdFromUUId s = binPrefix @ EncodeToString bs @ binSuffix"
    by (simp add: GetBsonIdFromUUId_def bs)
  moreover have "binPrefix @ EncodeToString bs @ binSuffix \<noteq> []"
    by (simp add: binPrefix_def)
  ultimately show "\<exists>bs. hex_DecodeString (ReplaceAll s (CHR ''-'') []) = Inr bs \<and>
            2 * length bs = length (ReplaceAll s (CHR ''-'') []) \<and>
            GetBsonIdFromUUId s = binPrefix @ EncodeToString bs @ binSuffix \<and>
            GetBsonIdFromUUId s \<noteq> []"
    using bs hex_DecodeString_length [OF bs] by simp
qed

theorem GetBsonIdFromUUId_unchecked_witness:
  "\<not> valid_hex (ReplaceAll ''12-3'' (CHR ''-'') []) \<and> GetBsonIdFromUUId ''12-3'' = [] \<and>
   \<not> valid_hex (ReplaceAll ''zz'' (CHR ''-'') []) \<and> GetBsonIdFromUUId ''zz'' = [] \<and>
   valid_hex (ReplaceAll ''ab-cd'' (CHR ''-'') []) \<and>
   GetBsonIdFromUUId ''ab-cd'' = binPrefix @ ''q80='' @ binSuffix"
proof -
  have 1: "\<not> valid_hex (ReplaceAll ''12-3'' (CHR ''-'') [])" by code_simp
  have 2: "\<not> valid_hex (ReplaceAll ''zz'' (CHR ''-'') [])" by code_simp
  have 3: "valid_hex (ReplaceAll ''ab-cd'' (CHR ''-'') [])" by code_simp
  have 4: "hex_DecodeString (ReplaceAll ''ab-cd'' (CHR ''-'') []) = Inr [0xab, 0xcd]" by code_simp
  have 5: "EncodeToString [0xab, 0xcd] = ''q80=''" by code_simp
  show ?thesis
    using 1 2 3 GetBsonIdFromUUId_unchecked [of "''12-3''"] GetBsonIdFromUUId_unchecked [of "''zz''"]
      GetBsonIdFromUUId_unchecked [of "''ab-cd''"]
    by (auto simp del: EncodeToString.simps simp: 4 5)
qed

section \<open>Proofs: the profiling pipeline\<close>

subsection \<open>Traces grow, and the exports touch no temporary file\<close>

lemma trace_emit [simp]: "trace (emit w es) = trace w @ es"
  by (simp add: emit_def)

lemma next_temp_emit [simp]: "next_temp (emit w es) = next_temp w"
  by (simp add: emit_def)

lemma disk_emit [simp]: "disk (emit w es) = disk w"
  by (simp add: emit_def)

lemma emit_emit: "emit (emit w es) es' = emit w (es @ es')"
  by (simp add: emit_def)

lemma creations_append [simp]: "creations (es @ es') f = creations es f + creations es' f"
  by (simp add: creations_def)

lemma removals_append [simp]: "removals (es @ es') f = removals es f + removals es' f"
  by (simp add: removals_def)

lemma creations_Nil [simp]: "creations [] f = 0"
  by (simp add: creations_def)

lemma removals_Nil [simp]: "removals [] f = 0"
  by (simp add: removals_def)

lemma creations_Cons:
  "creations (e # es) f = (case e of TempCreated g p \<Rightarrow> if g = f then 1 else 0 | _ \<Rightarrow> 0) + creations es f"
  by (simp add: creations_def split: event.splits)

lemma removals_Cons:
  "removals (e # es) f = (if e = TempRemoved f then 1 else 0) + removals es f"
  by (simp add: removals_def)

text \<open>A call that adds \<open>es\<close>, given by what \<open>es\<close> creates and removes.\<close>

lemma cleans_upI:
  assumes "trace w' = trace w @ es" and "next_temp w \<le> next_temp w'"
    and "\<And>f. creations es f = (if next_temp w \<le> f \<and> f < next_temp w' then 1 else 0)"
    and "\<And>f. removals es f = creations es f"
  shows "cleans_up w w'"
proof -
  have "new_events w w' = es" using assms(1) by (simp add: new_events_def)
  with assms show ?thesis by (simp add: cleans_up_def)
qed

lemma cleans_upD:
  assumes "cleans_up w w'"
  shows "\<exists>es. trace w' = trace w @ es \<and> next_temp w \<le> next_temp w' \<and>
          (\<forall>f. creations es f = (if next_temp w \<le> f \<and> f < next_temp w' then 1 else 0)) \<and>
          (\<forall>f. removals es f = creations es f)"
  using assms unfolding cleans_up_def by blast

lemma cleans_up_refl: "cleans_up w w"
  by (rule cleans_upI [where es = "[]"]) simp_all

lemma cleans_up_trans:
  assumes "cleans_up w w1" and "cleans_up w1 w2"
  shows "cleans_up w w2"
proof -
  obtain es1 where 1: "trace w1 = trace w @ es1" "next_temp w \<le> next_temp w1"
    "\<And>f. creations es1 f = (if next_temp w \<le> f \<and> f < next_temp w1 then 1 else 0)"
    "\<And>f. removals es1 f = creations es1 f"
    using cleans_upD [OF assms(1)] by blast
  obtain es2 where 2: "trace w2 = trace w1 @ es2" "next_temp w1 \<le> next_temp w2"
    "\<And>f. creations es2 f = (if next_temp w1 \<le> f \<and> f < next_temp w2 then 1 else 0)"
    "\<And>f. removals es2 f = creations es2 f"
    using cleans_upD [OF assms(2)] by blast
  show ?thesis
  proof (rule cleans_upI [where es = "es1 @ es2"])
    show "trace w2 = trace w @ es1 @ es2" using 1(1) 2(1) by simp
    show "next_temp w \<le> next_temp w2" using 1(2) 2(2) by simp
    show "creations (es1 @ es2) f = (if next_temp w \<le> f \<and> f < next_temp w2 then 1 else 0)" for f
      using 1(2) 2(2) by (simp add: 1(3) 2(3))
    show "removals (es1 @ es2) f = creations (es1 @ es2) f" for f
      by (simp add: 1(4) 2(4))
  qed
qed

lemma cleans_up_quiet:
  assumes "trace w' = trace w @ es" "next_temp w' = next_temp w" "quiet es"
  shows "cleans_up w w'"
  using assms by (intro cleans_upI [where es = es]) (simp_all add: quiet_def)

lemma cleans_up_GenerateGraph: "cleans_up w (GenerateGraph E f out format w)"
proof -
  have "\<exists>es. trace (GenerateGraph E f out format w) = trace w @ es \<and> quiet es"
    by (auto simp: GenerateGraph_def Let_def quiet_def creations_Cons removals_Cons
             split: option.splits)
  moreover have "next_temp (GenerateGraph E f out format w) = next_temp w"
    by (simp add: GenerateGraph_def Let_def split: option.splits)
  ultimately show ?thesis by (auto intro: cleans_up_quiet)
qed

lemma cleans_up_export_formats: "cleans_up w (export_formats E f kind dir formats w)"
proof (induction formats arbitrary: w)
  case Nil
  show ?case by (simp add: cleans_up_refl)
next
  case (Cons format rest)
  let ?w1 = "GenerateGraph E f (join_dir dir (kind @ ''.'' @ format)) format w"
  have "cleans_up w ?w1" by (rule cleans_up_GenerateGraph)
  moreover have "cleans_up ?w1 (export_formats E f kind dir rest ?w1)" by (rule Cons.IH)
  ultimately show ?case by (simp add: cleans_up_trans)
qed

lemma cleans_up_export_cpu: "cleans_up w (snd (export_cpu E f dir formats w))"
proof (induction formats arbitrary: w)
  case Nil
  show ?case by (simp add: cleans_up_refl)
next
  case (Cons format rest)
  show ?case
  proof (cases "format \<noteq> ''png'' \<and> format \<noteq> ''pdf''")
    case True
    have "cleans_up w (emit w [Log (InvalidFormat format)])"
      by (rule cleans_up_quiet [where es = "[Log (InvalidFormat format)]"])
         (simp_all add: quiet_def creations_Cons removals_Cons)
    with True show ?thesis by simp
  next
    case False
    let ?w1 = "GenerateGraph E f (join_dir dir (''cpu.'' @ format)) format w"
    have "cleans_up w ?w1" by (rule cleans_up_GenerateGraph)
    moreover have "cleans_up ?w1 (snd (export_cpu E f dir rest ?w1))" by (rule Cons.IH)
    ultimately have "cleans_up w (snd (export_cpu E f dir rest ?w1))" by (rule cleans_up_trans)
    with False show ?thesis by auto
  qed
qed

text \<open>A file created first and removed last, around a call that cleans up.\<close>

lemma cleans_up_bracket:
  assumes inner: "cleans_up (emit (w\<lparr>next_temp := Suc (next_temp w)\<rparr>) [TempCreated (next_temp w) p]) w2"
  shows "cleans_up w (emit w2 [TempClosed (next_temp w), TempRemoved (next_temp w)])"
proof -
  let ?f = "next_temp w"
  let ?w1 = "emit (w\<lparr>next_temp := Suc ?f\<rparr>) [TempCreated ?f p]"
  obtain es where es: "trace w2 = trace ?w1 @ es" "next_temp ?w1 \<le> next_temp w2"
    "\<And>f. creations es f = (if next_temp ?w1 \<le> f \<and> f < next_temp w2 then 1 else 0)"
    "\<And>f. removals es f = creations es f"
    using cleans_upD [OF inner] by blast
  have n1: "next_temp ?w1 = Suc ?f" by simp
  show ?thesis
  proof (rule cleans_upI [where es = "[TempCreated ?f p] @ es @ [TempClosed ?f, TempRemoved ?f]"])
    show "trace (emit w2 [TempClosed ?f, TempRemoved ?f]) =
          trace w @ [TempCreated ?f p] @ es @ [TempClosed ?f, TempRemoved ?f]"
      using es(1) by (simp add: emit_def)
    show "next_temp w \<le> next_temp (emit w2 [TempClosed ?f, TempRemoved ?f])"
      using es(2) n1 by simp
    show "creations ([TempCreated ?f p] @ es @ [TempClosed ?f, TempRemoved ?f]) f =
          (if next_temp w \<le> f \<and> f < next_temp (emit w2 [TempClosed ?f, TempRemoved ?f]) then 1 else 0)" for f
      using es(2) n1 by (auto simp: creations_Cons es(3))
    show "removals ([TempCreated ?f p] @ es @ [TempClosed ?f, TempRemoved ?f]) f =
          creations ([TempCreated ?f p] @ es @ [TempClosed ?f, TempRemoved ?f]) f" for f
      using es(2) n1 by (auto simp: creations_Cons removals_Cons es(3) es(4))
  qed
qed

subsection \<open>Every call of the pipeline cleans up\<close>

lemma cleans_up_emit_quiet: "quiet es \<Longrightarrow> cleans_up w (emit w es)"
  by (rule cleans_up_quiet [where es = es]) simp_all

lemma quiet_Log: "quiet [Log m]"
  by (simp add: quiet_def creations_Cons removals_Cons)

lemma quiet_written: "quiet [ProfileWriteTo kind f, Log m]"
  by (simp add: quiet_def creations_Cons removals_Cons)

lemma quiet_cpu:
  "quiet [StartCPUProfile f, SetBlockProfileRate 1, SetMutexProfileFraction 1, Workload, StopCPUProfile]"
  by (simp add: quiet_def creations_Cons removals_Cons)

lemma quiet_Fatal: "quiet [Fatal m]"
  by (simp add: quiet_def creations_Cons removals_Cons)

lemma cleans_up_WriteProfileAndExport:
  "cleans_up w (snd (WriteProfileAndExport cfg E kind dir w))"
proof -
  let ?f = "next_temp w"
  let ?p = "kind @ ''.prof''"
  let ?w1 = "emit (w\<lparr>next_temp := Suc ?f\<rparr>) [TempCreated ?f ?p]"
  let ?w2 = "emit ?w1 [ProfileWriteTo kind ?f, Log (ProfileWritten kind)]"
  have a: "cleans_up w (emit ?w1 [TempClosed ?f, TempRemoved ?f])"
    by (rule cleans_up_bracket) (rule cleans_up_refl)
  have b: "cleans_up w (emit (emit ?w1 [Log (WriteProfileFailed kind)]) [TempClosed ?f, TempRemoved ?f])"
    by (rule cleans_up_bracket) (rule cleans_up_emit_quiet [OF quiet_Log])
  have "cleans_up ?w1 ?w2" by (rule cleans_up_emit_quiet [OF quiet_written])
  moreover have "cleans_up ?w2 (export_formats E ?f kind dir (ProfilingOutputFormats cfg) ?w2)"
    by (rule cleans_up_export_formats)
  ultimately have "cleans_up ?w1 (export_formats E ?f kind dir (ProfilingOutputFormats cfg) ?w2)"
    by (rule cleans_up_trans)
  then have c: "cleans_up w (emit (export_formats E ?f kind dir (ProfilingOutputFormats cfg) ?w2)
                               [TempClosed ?f, TempRemoved ?f])"
    by (rule cleans_up_bracket)
  show ?thesis
    unfolding WriteProfileAndExport_def Let_def
    using a b c by (simp add: cleans_up_emit_quiet quiet_Log)
qed

lemma cleans_up_export_snapshots:
  "cleans_up w (snd (export_snapshots cfg E kinds dir w))"
proof (induction kinds arbitrary: w)
  case Nil
  show ?case by (simp add: cleans_up_refl)
next
  case (Cons kind rest)
  obtain out w' where r: "WriteProfileAndExport cfg E kind dir w = (out, w')"
    by (cases "WriteProfileAndExport cfg E kind dir w")
  have 1: "cleans_up w w'"
    using cleans_up_WriteProfileAndExport [of w cfg E kind dir] by (simp only: r snd_conv)
  show ?case
  proof (cases out)
    case Returned
    have "cleans_up w' (snd (export_snapshots cfg E rest dir w'))" by (rule Cons.IH)
    with 1 have "cleans_up w (snd (export_snapshots cfg E rest dir w'))" by (rule cleans_up_trans)
    with r Returned show ?thesis by simp
  next
    case FailedFatally
    with r 1 show ?thesis by simp
  next
    case Panicked
    with r 1 show ?thesis by simp
  qed
qed

lemma cleans_up_profile_run: "cleans_up w (snd (profile_run cfg E dir f w))"
proof (cases "StartCPUProfile_ok E (trace w)")
  case False
  then show ?thesis
    by (simp add: profile_run_def cleans_up_emit_quiet quiet_Fatal)
next
  case True
  let ?w1 = "emit w [StartCPUProfile f, SetBlockProfileRate 1, SetMutexProfileFraction 1,
                     Workload, StopCPUProfile]"
  obtain fin w2 where x: "export_cpu E f dir (ProfilingOutputFormats cfg) ?w1 = (fin, w2)"
    by (cases "export_cpu E f dir (ProfilingOutputFormats cfg) ?w1")
  have "cleans_up w ?w1" by (rule cleans_up_emit_quiet [OF quiet_cpu])
  moreover have "cleans_up ?w1 w2"
    using cleans_up_export_cpu [of ?w1 E f dir "ProfilingOutputFormats cfg"]
    by (simp only: x snd_conv)
  ultimately have 2: "cleans_up w w2" by (rule cleans_up_trans)
  have "cleans_up w2 (snd (export_snapshots cfg E (EnabledProfilingTypes cfg) dir w2))"
    by (rule cleans_up_export_snapshots)
  with 2 have 3: "cleans_up w (snd (export_snapshots cfg E (EnabledProfilingTypes cfg) dir w2))"
    by (rule cleans_up_trans)
  show ?thesis
    using True 2 3 by (cases fin) (simp_all add: profile_run_def Let_def x del: One_nat_def)
qed

lemma cleans_up_fs: "cleans_up (w\<lparr>disk := x\<rparr>) w' \<Longrightarrow> cleans_up w w'"
  by (simp add: cleans_up_def new_events_def)

lemma cleans_up_RunProfiling: "cleans_up w (snd (RunProfiling cfg E tc w))"
proof (cases "length (ProfilingOutputFormats cfg) = 0")
  case True
  then show ?thesis by (simp add: RunProfiling_def cleans_up_refl)
next
  case nonempty: False
  let ?dir = "GetProfileDir tc"
  let ?w0 = "w\<lparr>disk := prepare_dir (os_env.truncate E) (disk w) ?dir\<rparr>"
  let ?p = "''cpu_profile_*.prof''"
  show ?thesis
  proof (cases "CreateTemp_ok E (trace ?w0) ?p")
    case False
    have "cleans_up ?w0 (emit ?w0 [Fatal ''Failed to create temp CPU profile file''])"
      by (rule cleans_up_emit_quiet [OF quiet_Fatal])
    then have "cleans_up w (emit ?w0 [Fatal ''Failed to create temp CPU profile file''])"
      by (rule cleans_up_fs)
    with nonempty False show ?thesis by (simp add: RunProfiling_def Let_def)
  next
    case True
    let ?f = "next_temp ?w0"
    let ?w1 = "emit (?w0\<lparr>next_temp := Suc ?f\<rparr>) [TempCreated ?f ?p]"
    obtain out w2 where r: "profile_run cfg E ?dir ?f ?w1 = (out, w2)"
      by (cases "profile_run cfg E ?dir ?f ?w1")
    have "cleans_up ?w1 w2"
      using cleans_up_profile_run [of ?w1 cfg E ?dir ?f] by (simp only: r snd_conv)
    then have "cleans_up ?w0 (emit w2 [TempClosed ?f, TempRemoved ?f])"
      by (rule cleans_up_bracket)
    then have "cleans_up w (emit w2 [TempClosed ?f, TempRemoved ?f])"
      by (rule cleans_up_fs)
    with nonempty True r show ?thesis by (simp add: RunProfiling_def Let_def)
  qed
qed

section \<open>The claims about the profiling pipeline\<close>

text \<open>
  C4: with an empty set of output formats, \<open>RunProfiling\<close> returns at once and leaves the
  world as it was: no file, no temporary file, no run of the rendering tool, whatever
  profiling kinds are enabled; and \<open>WriteProfileAndExport\<close> only logs that it skips the
  kind.
\<close>

theorem no_formats_no_effect:
  assumes "ProfilingOutputFormats cfg = []"
  shows "RunProfiling cfg E tc w = (Returned, w) \<and>
         WriteProfileAndExport cfg E kind dir w =
           (Returned, w\<lparr>trace := trace w @ [Log (SkippingProfile kind)]\<rparr>)"
  using assms by (simp add: RunProfiling_def WriteProfileAndExport_def emit_def)

theorem no_formats_no_effect_witness:
  "ProfilingOutputFormats (cfg_of [] [''heap'', ''goroutine'']) = [] \<and>
   RunProfiling (cfg_of [] [''heap'', ''goroutine'']) E_ok tc_example w_empty = (Returned, w_empty) \<and>
   trace (snd (WriteProfileAndExport (cfg_of [] [''heap'', ''goroutine'']) E_ok ''heap'' [''profiles''] w_empty))
     = [Log (SkippingProfile ''heap'')]"
proof -
  have e: "ProfilingOutputFormats (cfg_of [] [''heap'', ''goroutine'']) = []"
    by (simp add: cfg_of_def)
  show ?thesis
    using e no_formats_no_effect [OF e, of E_ok tc_example w_empty "''heap''" "[''profiles'']"]
    by (simp add: w_empty_def)
qed

text \<open>
  C5: every temporary profile file, the CPU file of \<open>RunProfiling\<close> and the snapshot file
  of each \<open>WriteProfileAndExport\<close>, is removed exactly once by the call that created it,
  however that call ends (return, failed benchmark or panic): the deferred \<open>os.Remove\<close>
  is called on it once, and on no other file.
\<close>

theorem temp_files_removed_once:
  "cleans_up w (snd (RunProfiling cfg E tc w)) \<and>
   cleans_up w (snd (WriteProfileAndExport cfg E kind dir w))"
  by (simp add: cleans_up_RunProfiling cleans_up_WriteProfileAndExport)

theorem temp_files_removed_once_witness:
  "next_temp (snd (RunProfiling (cfg_of [''png''] [''heap'']) E_ok tc_example w_empty)) = 2 \<and>
   removals (trace (snd (RunProfiling (cfg_of [''png''] [''heap'']) E_ok tc_example w_empty))) 0 = 1 \<and>
   removals (trace (snd (RunProfiling (cfg_of [''png''] [''heap'']) E_ok tc_example w_empty))) 1 = 1 \<and>
   removals (trace (snd (RunProfiling (cfg_of [''png''] [''heap'']) E_ok tc_example w_empty))) 2 = 0"
proof -
  let ?w' = "snd (RunProfiling (cfg_of [''png''] [''heap'']) E_ok tc_example w_empty)"
  have n: "next_temp ?w' = 2" by code_simp
  have c: "cleans_up w_empty ?w'"
    using temp_files_removed_once [of w_empty "cfg_of [''png''] [''heap'']" E_ok tc_example]
    by blast
  have t: "trace w_empty = []" and z: "next_temp w_empty = 0" by (simp_all add: w_empty_def)
  from c have e: "trace ?w' = new_events w_empty ?w'"
    and r: "\<And>f. removals (new_events w_empty ?w') f = (if f < 2 then 1 else 0)"
    unfolding cleans_up_def t z n by simp_all
  show ?thesis using n r [of 0] r [of 1] r [of 2] by (simp only: e) simp
qed

text \<open>The two fatal ways out of \<open>RunProfiling\<close>.\<close>

lemma RunProfiling_no_temp:
  assumes "ProfilingOutputFormats cfg \<noteq> []"
    and "\<not> CreateTemp_ok E (trace w) ''cpu_profile_*.prof''"
  shows "RunProfiling cfg E tc w =
           (FailedFatally,
            emit (w\<lparr>disk := prepare_dir (os_env.truncate E) (disk w) (GetProfileDir tc)\<rparr>)
              [Fatal ''Failed to create temp CPU profile file''])"
  using assms by (simp add: RunProfiling_def Let_def)

lemma RunProfiling_no_start:
  assumes "ProfilingOutputFormats cfg \<noteq> []"
    and "CreateTemp_ok E (trace w) ''cpu_profile_*.prof''"
    and "\<not> StartCPUProfile_ok E (trace w @ [TempCreated (next_temp w) ''cpu_profile_*.prof''])"
  shows "RunProfiling cfg E tc w =
           (FailedFatally,
            emit (w\<lparr>disk := prepare_dir (os_env.truncate E) (disk w) (GetProfileDir tc),
                    next_temp := Suc (next_temp w)\<rparr>)
              [TempCreated (next_temp w) ''cpu_profile_*.prof'', Fatal ''Failed to start CPU profile'',
               TempClosed (next_temp w), TempRemoved (next_temp w)])"
  using assms by (simp add: RunProfiling_def profile_run_def Let_def emit_def)

lemma new_events_emit: "trace w' = trace w \<Longrightarrow> new_events w (emit w' es) = es"
  by (simp add: new_events_def)

text \<open>
  C8: in a run with a non-empty format set, a failure to create the CPU temporary file or
  to start the CPU profile fails the benchmark through \<open>require\<close> and ends the run: the
  workload is not executed and nothing is exported; the file system has only seen the
  preparation of the directory.  A snapshot profile whose temporary file cannot be
  created just returns.
\<close>

theorem cpu_failure_is_fatal:
  assumes "ProfilingOutputFormats cfg \<noteq> []"
    and "\<not> CreateTemp_ok E (trace w) ''cpu_profile_*.prof'' \<or>
         \<not> StartCPUProfile_ok E (trace w @ [TempCreated (next_temp w) ''cpu_profile_*.prof''])"
  shows "fst (RunProfiling cfg E tc w) = FailedFatally \<and>
         (\<exists>m. Fatal m \<in> set (new_events w (snd (RunProfiling cfg E tc w)))) \<and>
         Workload \<notin> set (new_events w (snd (RunProfiling cfg E tc w))) \<and>
         \<not> list_ex is_export (new_events w (snd (RunProfiling cfg E tc w))) \<and>
         disk (snd (RunProfiling cfg E tc w)) = prepare_dir (os_env.truncate E) (disk w) (GetProfileDir tc) \<and>
         (\<not> CreateTemp_ok E (trace w) (kind @ ''.prof'') \<longrightarrow>
            WriteProfileAndExport cfg E kind dir w = (Returned, emit w [Log (TempFileFailed kind)]))"
proof -
  have snap: "\<not> CreateTemp_ok E (trace w) (kind @ ''.prof'') \<longrightarrow>
            WriteProfileAndExport cfg E kind dir w = (Returned, emit w [Log (TempFileFailed kind)])"
    using assms(1) by (simp add: WriteProfileAndExport_def)
  show ?thesis
  proof (cases "CreateTemp_ok E (trace w) ''cpu_profile_*.prof''")
    case False
    show ?thesis
      unfolding RunProfiling_no_temp [OF assms(1) False]
      using snap by (simp add: new_events_emit is_export_def)
  next
    case True
    with assms(2)
    have "\<not> StartCPUProfile_ok E (trace w @ [TempCreated (next_temp w) ''cpu_profile_*.prof''])"
      by simp
    note eq = RunProfiling_no_start [OF assms(1) True this]
    show ?thesis
      unfolding eq using snap by (simp add: new_events_emit is_export_def)
  qed
qed

text \<open>An outside where the CPU profile cannot be started, another profile being active.\<close>

theorem cpu_failure_is_fatal_witness:
  "ProfilingOutputFormats (cfg_of [''png''] [''heap'']) \<noteq> [] \<and>
   \<not> StartCPUProfile_ok (E_ok\<lparr>StartCPUProfile_ok := \<lambda>h. False\<rparr>)
        (trace w_empty @ [TempCreated (next_temp w_empty) ''cpu_profile_*.prof'']) \<and>
   fst (RunProfiling (cfg_of [''png''] [''heap'']) (E_ok\<lparr>StartCPUProfile_ok := \<lambda>h. False\<rparr>)
          tc_example w_empty) = FailedFatally \<and>
   Workload \<notin> set (new_events w_empty
      (snd (RunProfiling (cfg_of [''png''] [''heap'']) (E_ok\<lparr>StartCPUProfile_ok := \<lambda>h. False\<rparr>)
          tc_example w_empty)))"
proof -
  let ?E = "E_ok\<lparr>StartCPUProfile_ok := \<lambda>h. False\<rparr>"
  have 1: "ProfilingOutputFormats (cfg_of [''png''] [''heap'']) \<noteq> []"
    by (simp add: cfg_of_def)
  have 2: "\<not> StartCPUProfile_ok ?E (trace w_empty @ [TempCreated (next_temp w_empty) ''cpu_profile_*.prof''])"
    by simp
  from 2 have 3: "\<not> CreateTemp_ok ?E (trace w_empty) ''cpu_profile_*.prof'' \<or>
      \<not> StartCPUProfile_ok ?E (trace w_empty @ [TempCreated (next_temp w_empty) ''cpu_profile_*.prof''])"
    by (rule disjI2)
  show ?thesis
    using 1 2 cpu_failure_is_fatal [OF 1 3, of tc_example] by blast
qed

text \<open>How a snapshot ends: it panics exactly when the runtime does not know the kind.\<close>

lemma WriteProfileAndExport_outcome:
  "fst (WriteProfileAndExport cfg E kind dir w) =
     (if ProfilingOutputFormats cfg \<noteq> [] \<and> CreateTemp_ok E (trace w) (kind @ ''.prof'') \<and>
         \<not> Lookup_found E (trace w @ [TempCreated (next_temp w) (kind @ ''.prof'')]) kind
      then Panicked else Returned)"
  by (simp add: WriteProfileAndExport_def Let_def)

text \<open>
  C6: a snapshot kind that fails is logged and skipped, and the remaining kinds are still
  captured.  The code does so when the temporary file cannot be created or the profile
  cannot be written, but not for a kind that the runtime does not know: with the kinds
  \<open>nosuch, heap\<close>, \<open>pprof.Lookup\<close> gives nil for \<open>nosuch\<close>, the call of \<open>WriteTo\<close> on it
  panics, the panic leaves \<open>RunProfiling\<close>, and no heap profile is captured.
\<close>

theorem unknown_kind_panics:
  "fst (RunProfiling (cfg_of [''png''] [''nosuch'', ''heap'']) E_ok tc_example w_empty) = Panicked \<and>
   trace (snd (RunProfiling (cfg_of [''png''] [''nosuch'', ''heap'']) E_ok tc_example w_empty)) =
     [TempCreated 0 ''cpu_profile_*.prof'', StartCPUProfile 0, SetBlockProfileRate 1,
      SetMutexProfileFraction 1, Workload, StopCPUProfile, ToolRun ''png'' 0,
      FileWritten [''profiles'', ''ExampleRunProfiling'', ''BenchmarkExample'', ''cpu.png''] ''image'',
      Log (Saved ''png'' [''profiles'', ''ExampleRunProfiling'', ''BenchmarkExample'', ''cpu.png'']),
      TempCreated 1 ''nosuch.prof'', TempClosed 1, TempRemoved 1, TempClosed 0, TempRemoved 0]"
  by code_simp

text \<open>
  C1, as stated: an unsupported format in the configured list is logged, nothing is
  written for it, and the run goes on with the remaining formats and the enabled
  snapshot kinds.  \<open>RunProfiling\<close> returns at the first unsupported format instead: with
  the formats \<open>svg, png\<close> and the kind \<open>heap\<close>, nothing is exported as \<open>png\<close> and no heap
  profile is captured.
\<close>

theorem unsupported_format_counterexample:
  "fst (RunProfiling (cfg_of [''svg'', ''png''] [''heap'']) E_ok tc_example w_empty) = Returned \<and>
   trace (snd (RunProfiling (cfg_of [''svg'', ''png''] [''heap'']) E_ok tc_example w_empty)) =
     [TempCreated 0 ''cpu_profile_*.prof'', StartCPUProfile 0, SetBlockProfileRate 1,
      SetMutexProfileFraction 1, Workload, StopCPUProfile, Log (InvalidFormat ''svg''),
      TempClosed 0, TempRemoved 0]"
  by code_simp

text \<open>The format loop of \<open>RunProfiling\<close> up to the first unsupported format.\<close>

lemma export_cpu_supported:
  "list_all supported pre \<Longrightarrow> fst (export_cpu E f dir pre w) = True"
  by (induction pre arbitrary: w) (auto simp: supported_def)

lemma export_cpu_stops:
  assumes "list_all supported pre" and "\<not> supported bad"
  shows "export_cpu E f dir (pre @ bad # post) w =
           (False, emit (snd (export_cpu E f dir pre w)) [Log (InvalidFormat bad)])"
  using assms by (induction pre arbitrary: w) (auto simp: supported_def)

text \<open>The run when the CPU profile has been started and the format list has an unsupported entry.\<close>

lemma RunProfiling_stops:
  assumes fm: "ProfilingOutputFormats cfg = pre @ bad # post"
    and pre: "list_all supported pre" and bad: "\<not> supported bad"
    and tmp: "CreateTemp_ok E (trace w) ''cpu_profile_*.prof''"
    and start: "StartCPUProfile_ok E (trace w @ [TempCreated (next_temp w) ''cpu_profile_*.prof''])"
  shows "RunProfiling cfg E tc w =
     (Returned,
      emit (snd (export_cpu E (next_temp w) (GetProfileDir tc) pre
                  (emit (w\<lparr>disk := prepare_dir (os_env.truncate E) (disk w) (GetProfileDir tc),
                          next_temp := Suc (next_temp w)\<rparr>)
                     [TempCreated (next_temp w) ''cpu_profile_*.prof'', StartCPUProfile (next_temp w),
                      SetBlockProfileRate 1, SetMutexProfileFraction 1, Workload, StopCPUProfile])))
        [Log (InvalidFormat bad), TempClosed (next_temp w), TempRemoved (next_temp w)])"
  using tmp start
  by (simp add: RunProfiling_def profile_run_def Let_def fm export_cpu_stops [OF pre bad]
        emit_emit del: One_nat_def)

subsection \<open>What the formats before the unsupported one leave behind\<close>

lemma tool_runs_append [simp]: "tool_runs (es @ es') = tool_runs es @ tool_runs es'"
  by (simp add: tool_runs_def)

lemma tool_runs_Nil [simp]: "tool_runs [] = []"
  by (simp add: tool_runs_def)

lemma new_events_append: "trace w' = trace w @ es \<Longrightarrow> new_events w w' = es"
  by (simp add: new_events_def)

lemma new_events_trans:
  assumes "trace w1 = trace w @ new_events w w1" and "trace w2 = trace w1 @ new_events w1 w2"
  shows "trace w2 = trace w @ new_events w w2"
    and "new_events w w2 = new_events w w1 @ new_events w1 w2"
proof -
  have "trace w2 = trace w @ (new_events w w1 @ new_events w1 w2)"
    using assms(2) by (subst (asm) assms(1)) simp
  then show "new_events w w2 = new_events w w1 @ new_events w1 w2"
    by (rule new_events_append)
  then show "trace w2 = trace w @ new_events w w2"
    using \<open>trace w2 = trace w @ (new_events w w1 @ new_events w1 w2)\<close> by simp
qed

lemma export_cpu_Cons_supported:
  "supported format \<Longrightarrow>
   export_cpu E f dir (format # rest) w =
     export_cpu E f dir rest (GenerateGraph E f (join_dir dir (''cpu.'' @ format)) format w)"
  by (auto simp: supported_def)

text \<open>\<open>GenerateGraph\<close> runs the tool once and, where both steps succeed, writes its output.\<close>

lemma GenerateGraph_extends:
  "trace (GenerateGraph E f p format w) = trace w @ new_events w (GenerateGraph E f p format w)"
  by (cases "pprof_tool E (trace w) format f")
     (simp_all add: GenerateGraph_def Let_def emit_def new_events_def)

lemma GenerateGraph_runs:
  "tool_runs (new_events w (GenerateGraph E f p format w)) = [ToolRun format f]"
  by (cases "pprof_tool E (trace w) format f")
     (simp_all add: GenerateGraph_def Let_def emit_def new_events_def tool_runs_def)

lemma GenerateGraph_written:
  assumes "\<forall>h. pprof_tool E h format f = Some out" and "\<forall>h. WriteFile_ok E h p"
  shows "FileWritten p out \<in> set (new_events w (GenerateGraph E f p format w))"
    and "disk (GenerateGraph E f p format w) p = Some (File out)"
  using assms by (simp_all add: GenerateGraph_def Let_def emit_def new_events_def)

lemma GenerateGraph_disk_cases:
  "disk (GenerateGraph E f p format w) q = disk w q \<or>
   (q = p \<and> (\<exists>out. pprof_tool E (trace w) format f = Some out \<and>
                    disk (GenerateGraph E f p format w) q = Some (File out)))"
  by (cases "pprof_tool E (trace w) format f")
     (simp_all add: GenerateGraph_def Let_def emit_def)

text \<open>The output paths of the two supported formats differ.\<close>

lemma clean_elems_snoc:
  "e \<noteq> [] \<Longrightarrow> e \<noteq> ''.'' \<Longrightarrow> e \<noteq> ''..'' \<Longrightarrow>
   clean_elems acc (xs @ [e]) = clean_elems acc xs @ [e]"
  by (induction xs arbitrary: acc) simp_all

lemma join_dir_cpu_png: "join_dir dir ''cpu.png'' = clean_elems [] dir @ [''cpu.png'']"
  by (simp add: join_dir_def clean_elems_snoc)

lemma join_dir_cpu_pdf: "join_dir dir ''cpu.pdf'' = clean_elems [] dir @ [''cpu.pdf'']"
  by (simp add: join_dir_def clean_elems_snoc)

lemma join_dir_cpu_inj:
  assumes "supported a" "supported b"
    and "join_dir dir (''cpu.'' @ a) = join_dir dir (''cpu.'' @ b)"
  shows "a = b"
proof -
  from assms(1) have a: "a = ''png'' \<or> a = ''pdf''" by (simp add: supported_def)
  from assms(2) have b: "b = ''png'' \<or> b = ''pdf''" by (simp add: supported_def)
  from a b assms(3) show ?thesis
    by (elim disjE) (simp_all add: join_dir_cpu_png join_dir_cpu_pdf)
qed

text \<open>The loop over supported formats only adds events.\<close>

lemma export_cpu_extends:
  "list_all supported pre \<Longrightarrow>
   trace (snd (export_cpu E f dir pre w)) = trace w @ new_events w (snd (export_cpu E f dir pre w))"
proof (induction pre arbitrary: w)
  case Nil
  show ?case by (simp add: new_events_def)
next
  case (Cons fmt rest)
  from Cons.prems have sup: "supported fmt" and rest: "list_all supported rest" by simp_all
  show ?case
    unfolding export_cpu_Cons_supported [OF sup]
    by (rule new_events_trans(1) [OF GenerateGraph_extends Cons.IH [OF rest]])
qed

text \<open>The tool is run once for each format, in order.\<close>

lemma export_cpu_runs:
  "list_all supported pre \<Longrightarrow>
   tool_runs (new_events w (snd (export_cpu E f dir pre w))) = map (\<lambda>format. ToolRun format f) pre"
proof (induction pre arbitrary: w)
  case Nil
  show ?case by (simp add: new_events_def)
next
  case (Cons fmt rest)
  from Cons.prems have sup: "supported fmt" and rest: "list_all supported rest" by simp_all
  show ?case
    unfolding export_cpu_Cons_supported [OF sup]
      new_events_trans(2) [OF GenerateGraph_extends export_cpu_extends [OF rest]]
    by (simp only: tool_runs_append GenerateGraph_runs Cons.IH [OF rest] list.map append.simps)
qed

text \<open>A written output stays on the disk: only the same format writes to its path again.\<close>

lemma export_cpu_disk_keep:
  assumes "list_all supported pre" and "supported format"
    and "\<forall>h. pprof_tool E h format f = Some out"
    and "disk w (join_dir dir (''cpu.'' @ format)) = Some (File out)"
  shows "disk (snd (export_cpu E f dir pre w)) (join_dir dir (''cpu.'' @ format)) = Some (File out)"
  using assms
proof (induction pre arbitrary: w)
  case Nil
  from Nil(4) show ?case by (simp only: export_cpu.simps snd_conv)
next
  case (Cons fmt rest)
  from Cons.prems(1) have sup: "supported fmt" and rest: "list_all supported rest" by simp_all
  define p where "p = join_dir dir (''cpu.'' @ fmt)"
  define q where "q = join_dir dir (''cpu.'' @ format)"
  define w1 where "w1 = GenerateGraph E f p fmt w"
  have old: "disk w q = Some (File out)" using Cons.prems(4) unfolding q_def .
  have "disk w1 q = disk w q \<or>
        (q = p \<and> (\<exists>out'. pprof_tool E (trace w) fmt f = Some out' \<and> disk w1 q = Some (File out')))"
    unfolding w1_def by (rule GenerateGraph_disk_cases)
  then have "disk w1 q = Some (File out)"
  proof (elim disjE conjE exE)
    assume "disk w1 q = disk w q"
    with old show ?thesis by simp
  next
    fix out'
    assume qp: "q = p" and t: "pprof_tool E (trace w) fmt f = Some out'"
      and d: "disk w1 q = Some (File out')"
    from qp have "join_dir dir (''cpu.'' @ format) = join_dir dir (''cpu.'' @ fmt)"
      unfolding p_def q_def .
    from join_dir_cpu_inj [OF Cons.prems(2) sup this] have "format = fmt" .
    with Cons.prems(3) have "pprof_tool E (trace w) fmt f = Some out" by simp
    with t have "out' = out" by simp
    with d show ?thesis by simp
  qed
  then have "disk (GenerateGraph E f (join_dir dir (''cpu.'' @ fmt)) fmt w)
               (join_dir dir (''cpu.'' @ format)) = Some (File out)"
    unfolding w1_def p_def q_def .
  from Cons.IH [OF rest Cons.prems(2) Cons.prems(3) this] show ?case
    unfolding export_cpu_Cons_supported [OF sup] .
qed

text \<open>Each format is written to its path, where the tool and the write succeed.\<close>

lemma export_cpu_written:
  assumes "list_all supported pre" and "format \<in> set pre"
    and "\<forall>h. pprof_tool E h format f = Some out"
    and "\<forall>h. WriteFile_ok E h (join_dir dir (''cpu.'' @ format))"
  shows "FileWritten (join_dir dir (''cpu.'' @ format)) out
           \<in> set (new_events w (snd (export_cpu E f dir pre w))) \<and>
         disk (snd (export_cpu E f dir pre w)) (join_dir dir (''cpu.'' @ format)) = Some (File out)"
  using assms(1,2)
proof (induction pre arbitrary: w)
  case Nil
  from Nil(2) show ?case by simp
next
  case (Cons fmt rest)
  from Cons.prems(1) have sup: "supported fmt" and rest: "list_all supported rest" by simp_all
  define q where "q = join_dir dir (''cpu.'' @ format)"
  define w1 where "w1 = GenerateGraph E f (join_dir dir (''cpu.'' @ fmt)) fmt w"
  define w2 where "w2 = snd (export_cpu E f dir rest w1)"
  have ev: "new_events w w2 = new_events w w1 @ new_events w1 w2"
    unfolding w1_def w2_def
    by (rule new_events_trans(2) [OF GenerateGraph_extends export_cpu_extends [OF rest]])
  have "FileWritten q out \<in> set (new_events w w2) \<and> disk w2 q = Some (File out)"
  proof (cases "format = fmt")
    case True
    note h = assms(3,4) [unfolded True]
    have 1: "FileWritten q out \<in> set (new_events w w1)"
      unfolding w1_def q_def True by (rule GenerateGraph_written(1) [OF h])
    have 2: "disk w1 q = Some (File out)"
      unfolding w1_def q_def True by (rule GenerateGraph_written(2) [OF h])
    from sup True have "supported format" by simp
    from export_cpu_disk_keep [OF rest this assms(3) 2 [unfolded q_def]]
    have "disk w2 q = Some (File out)" unfolding w2_def q_def .
    with 1 show ?thesis unfolding ev by simp
  next
    case False
    with Cons.prems(2) have "format \<in> set rest" by simp
    from Cons.IH [OF rest this, of w1]
    have "FileWritten q out \<in> set (new_events w1 w2) \<and> disk w2 q = Some (File out)"
      unfolding w2_def q_def .
    then show ?thesis unfolding ev by simp
  qed
  then show ?case
    unfolding export_cpu_Cons_supported [OF sup] w2_def w1_def q_def .
qed

text \<open>
  C1, amended: \<open>RunProfiling\<close> checks each configured format before it exports the CPU
  profile in it.  When the list holds an unsupported format, and the CPU profile could be
  taken, the formats before the first unsupported one are exported: the rendering tool
  is run on the CPU file once for each of them, in their order and for no other format,
  and where the tool and the write succeed its output is written to \<open>cpu.format\<close> in the
  profile directory and is there at the end.  Then the failure is logged, the rendering
  tool is never run with the unsupported format, and the run returns there: its last
  events are the log line and the removal of the CPU file, and the run is the same as
  with no format after the unsupported one and no snapshot kind enabled.
\<close>

theorem unsupported_format_stops_run:
  assumes fm: "ProfilingOutputFormats cfg = pre @ bad # post"
    and pre: "list_all supported pre" and bad: "\<not> supported bad"
    and tmp: "CreateTemp_ok E (trace w) ''cpu_profile_*.prof''"
    and start: "StartCPUProfile_ok E (trace w @ [TempCreated (next_temp w) ''cpu_profile_*.prof''])"
  shows "fst (RunProfiling cfg E tc w) = Returned \<and>
         (\<exists>es. new_events w (snd (RunProfiling cfg E tc w)) =
                 es @ [Log (InvalidFormat bad), TempClosed (next_temp w), TempRemoved (next_temp w)]) \<and>
         (\<forall>g. ToolRun bad g \<notin> set (new_events w (snd (RunProfiling cfg E tc w)))) \<and>
         RunProfiling cfg E tc w =
           RunProfiling (cfg\<lparr>ProfilingOutputFormats := pre @ [bad], EnabledProfilingTypes := []\<rparr>) E tc w \<and>
         tool_runs (new_events w (snd (RunProfiling cfg E tc w))) =
           map (\<lambda>format. ToolRun format (next_temp w)) pre \<and>
         (\<forall>format out.
            format \<in> set pre \<and> (\<forall>h. pprof_tool E h format (next_temp w) = Some out) \<and>
            (\<forall>h. WriteFile_ok E h (join_dir (GetProfileDir tc) (''cpu.'' @ format)))
            \<longrightarrow> FileWritten (join_dir (GetProfileDir tc) (''cpu.'' @ format)) out
                  \<in> set (new_events w (snd (RunProfiling cfg E tc w))) \<and>
                disk (snd (RunProfiling cfg E tc w)) (join_dir (GetProfileDir tc) (''cpu.'' @ format))
                  = Some (File out))"
proof -
  let ?f = "next_temp w"
  let ?dir = "GetProfileDir tc"
  let ?w1 = "emit (w\<lparr>disk := prepare_dir (os_env.truncate E) (disk w) ?dir,
                      next_temp := Suc ?f\<rparr>)
               [TempCreated ?f ''cpu_profile_*.prof'', StartCPUProfile ?f,
                SetBlockProfileRate 1, SetMutexProfileFraction 1, Workload, StopCPUProfile]"
  let ?tail = "[Log (InvalidFormat bad), TempClosed ?f, TempRemoved ?f]"
  let ?cfg' = "cfg\<lparr>ProfilingOutputFormats := pre @ [bad], EnabledProfilingTypes := []\<rparr>"
  let ?w2 = "snd (export_cpu E ?f ?dir pre ?w1)"
  let ?head = "[TempCreated ?f ''cpu_profile_*.prof'', StartCPUProfile ?f,
                SetBlockProfileRate 1, SetMutexProfileFraction 1, Workload, StopCPUProfile]"
  have eq: "RunProfiling cfg E tc w = (Returned, emit ?w2 ?tail)"
    by (rule RunProfiling_stops [OF fm pre bad tmp start])
  have "ProfilingOutputFormats ?cfg' = pre @ bad # []" by simp
  from RunProfiling_stops [OF this pre bad tmp start]
  have eq': "RunProfiling ?cfg' E tc w = (Returned, emit ?w2 ?tail)" .
  define es where "es = new_events ?w1 ?w2"
  have tr: "trace ?w2 = trace ?w1 @ es"
    unfolding es_def by (rule export_cpu_extends [OF pre])
  have runs_es: "tool_runs es = map (\<lambda>format. ToolRun format ?f) pre"
    unfolding es_def by (rule export_cpu_runs [OF pre])
  have new: "new_events w (snd (RunProfiling cfg E tc w)) = (?head @ es) @ ?tail"
    unfolding eq by (simp add: new_events_def tr del: One_nat_def)
  have c1: "fst (RunProfiling cfg E tc w) = Returned"
    unfolding eq by simp
  have c2: "\<exists>es'. new_events w (snd (RunProfiling cfg E tc w)) = es' @ ?tail"
    unfolding new by (rule exI [of _ "?head @ es"]) (rule refl)
  have c3: "\<forall>g. ToolRun bad g \<notin> set (new_events w (snd (RunProfiling cfg E tc w)))"
    unfolding new
  proof (intro allI notI)
    fix g
    assume "ToolRun bad g \<in> set ((?head @ es) @ ?tail)"
    then have "ToolRun bad g \<in> set es" by simp
    then have "ToolRun bad g \<in> set (tool_runs es)" by (simp add: tool_runs_def)
    then have "bad \<in> set pre" unfolding runs_es by auto
    with pre bad show False by (simp add: list_all_iff)
  qed
  have c4: "RunProfiling cfg E tc w = RunProfiling ?cfg' E tc w"
    unfolding eq eq' by (rule refl)
  have c5: "tool_runs (new_events w (snd (RunProfiling cfg E tc w))) =
              map (\<lambda>format. ToolRun format ?f) pre"
    unfolding new using runs_es by (simp add: tool_runs_def del: One_nat_def)
  have c6: "\<forall>format out.
      format \<in> set pre \<and> (\<forall>h. pprof_tool E h format ?f = Some out) \<and>
      (\<forall>h. WriteFile_ok E h (join_dir ?dir (''cpu.'' @ format)))
      \<longrightarrow> FileWritten (join_dir ?dir (''cpu.'' @ format)) out
            \<in> set (new_events w (snd (RunProfiling cfg E tc w))) \<and>
          disk (snd (RunProfiling cfg E tc w)) (join_dir ?dir (''cpu.'' @ format))
            = Some (File out)"
  proof (intro allI impI)
    fix format out
    assume h: "format \<in> set pre \<and> (\<forall>h. pprof_tool E h format ?f = Some out) \<and>
      (\<forall>h. WriteFile_ok E h (join_dir ?dir (''cpu.'' @ format)))"
    define q where "q = join_dir ?dir (''cpu.'' @ format)"
    from h have h1: "format \<in> set pre" and h2: "\<forall>h. pprof_tool E h format ?f = Some out"
      and h3: "\<forall>h. WriteFile_ok E h (join_dir ?dir (''cpu.'' @ format))"
      by (rule conjunct1, rule conjunct2 [THEN conjunct1], rule conjunct2 [THEN conjunct2])
    from export_cpu_written [OF pre h1 h2 h3, of ?w1]
    have "FileWritten q out \<in> set es \<and> disk ?w2 q = Some (File out)"
      unfolding es_def q_def .
    then have in_es: "FileWritten q out \<in> set es" and d2: "disk ?w2 q = Some (File out)"
      by (rule conjunct1, rule conjunct2)
    have A: "FileWritten q out \<in> set (new_events w (snd (RunProfiling cfg E tc w)))"
      unfolding new using in_es by simp
    have B: "disk (snd (RunProfiling cfg E tc w)) q = Some (File out)"
      unfolding eq using d2 by (simp add: emit_def)
    from A B show "FileWritten (join_dir ?dir (''cpu.'' @ format)) out
            \<in> set (new_events w (snd (RunProfiling cfg E tc w))) \<and>
          disk (snd (RunProfiling cfg E tc w)) (join_dir ?dir (''cpu.'' @ format))
            = Some (File out)"
      unfolding q_def by (rule conjI)
  qed
  show ?thesis
    by (rule conjI [OF c1 conjI [OF c2 conjI [OF c3 conjI [OF c4 conjI [OF c5 c6]]]]])
qed

theorem unsupported_format_stops_run_witness:
  "ProfilingOutputFormats (cfg_of [''png'', ''svg'', ''pdf''] [''heap'']) = [''png''] @ ''svg'' # [''pdf''] \<and>
   list_all supported [''png''] \<and> \<not> supported ''svg'' \<and>
   CreateTemp_ok E_ok (trace w_empty) ''cpu_profile_*.prof'' \<and>
   StartCPUProfile_ok E_ok (trace w_empty @ [TempCreated (next_temp w_empty) ''cpu_profile_*.prof'']) \<and>
   fst (RunProfiling (cfg_of [''png'', ''svg'', ''pdf''] [''heap'']) E_ok tc_example w_empty) = Returned \<and>
   RunProfiling (cfg_of [''png'', ''svg'', ''pdf''] [''heap'']) E_ok tc_example w_empty =
     RunProfiling (cfg_of [''png'', ''svg'', ''pdf''] [''heap'']
        \<lparr>ProfilingOutputFormats := [''png''] @ [''svg''], EnabledProfilingTypes := []\<rparr>) E_ok tc_example w_empty \<and>
   tool_runs (new_events w_empty
      (snd (RunProfiling (cfg_of [''png'', ''svg'', ''pdf''] [''heap'']) E_ok tc_example w_empty)))
     = map (\<lambda>format. ToolRun format (next_temp w_empty)) [''png''] \<and>
   FileWritten (join_dir (GetProfileDir tc_example) (''cpu.'' @ ''png'')) ''image''
     \<in> set (new_events w_empty
          (snd (RunProfiling (cfg_of [''png'', ''svg'', ''pdf''] [''heap'']) E_ok tc_example w_empty))) \<and>
   disk (snd (RunProfiling (cfg_of [''png'', ''svg'', ''pdf''] [''heap'']) E_ok tc_example w_empty))
      (join_dir (GetProfileDir tc_example) (''cpu.'' @ ''png'')) = Some (File ''image'')"
proof -
  have 1: "ProfilingOutputFormats (cfg_of [''png'', ''svg'', ''pdf''] [''heap'']) = [''png''] @ ''svg'' # [''pdf'']"
    by (simp add: cfg_of_def)
  have 2: "list_all supported [''png'']" by (simp add: supported_def)
  have 3: "\<not> supported ''svg''" by (simp add: supported_def)
  have 4: "CreateTemp_ok E_ok (trace w_empty) ''cpu_profile_*.prof''" by (simp add: E_ok_def)
  have 5: "StartCPUProfile_ok E_ok (trace w_empty @ [TempCreated (next_temp w_empty) ''cpu_profile_*.prof''])"
    by (simp add: E_ok_def)
  have 6: "''png'' \<in> set [''png''] \<and> (\<forall>h. pprof_tool E_ok h ''png'' (next_temp w_empty) = Some ''image'') \<and>
      (\<forall>h. WriteFile_ok E_ok h (join_dir (GetProfileDir tc_example) (''cpu.'' @ ''png'')))"
    by (simp add: E_ok_def)
  note t = unsupported_format_stops_run [OF 1 2 3 4 5, of tc_example]
  note a = t [THEN conjunct1]
  note d = t [THEN conjunct2, THEN conjunct2, THEN conjunct2, THEN conjunct1]
  note e = t [THEN conjunct2, THEN conjunct2, THEN conjunct2, THEN conjunct2, THEN conjunct1]
  note g = t [THEN conjunct2, THEN conjunct2, THEN conjunct2, THEN conjunct2, THEN conjunct2,
              THEN spec, THEN spec, THEN mp, OF 6]
  show ?thesis
    by (rule conjI [OF 1 conjI [OF 2 conjI [OF 3 conjI [OF 4 conjI [OF 5
          conjI [OF a conjI [OF d conjI [OF e g]]]]]]]])
qed

section \<open>Proofs: the preparation of the profile directory\<close>

lemma os_Stat_cong:
  "(\<And>q. is_file fs' q = is_file fs q) \<Longrightarrow> fs' p = fs p \<Longrightarrow> os_Stat fs' p = os_Stat fs p"
  by (simp add: os_Stat_def)

lemma os_Stat_Nil [simp]: "os_Stat fs [] = StatDir"
  by (simp add: os_Stat_def)

lemma os_Stat_NotExist: "os_Stat fs p = ErrNotExist \<Longrightarrow> fs p = None"
  by (auto simp: os_Stat_def split: if_splits option.splits node.splits)

lemma os_Stat_Dir_upd:
  "os_Stat fs p = ErrNotExist \<Longrightarrow> os_Stat (fs(p \<mapsto> Dir m)) p = StatDir"
  by (auto simp: os_Stat_def is_file_def list_ex_iff split: if_splits option.splits node.splits)

lemma is_file_Dir_upd: "fs p = None \<Longrightarrow> is_file (fs(p \<mapsto> Dir m)) q = is_file fs q"
  by (simp add: is_file_def)

text \<open>\<open>os.Mkdir\<close> where the path is no node yet and the parent is a directory.\<close>

lemma os_Mkdir_cases:
  assumes "os_Stat fs p \<noteq> StatDir" "os_Stat fs p \<noteq> StatFile" "os_Stat fs (butlast p) = StatDir"
  shows "(os_Stat fs p = ErrNotExist \<and> \<not> mkdir_denied E p \<and>
          (\<forall>perm. os_Mkdir E fs p perm = (fs(p \<mapsto> Dir (perm AND NOT (umask E))), None))) \<or>
         (\<exists>err. \<forall>perm. os_Mkdir E fs p perm = (fs, Some err))"
  using assms by (cases "os_Stat fs p") (auto simp: os_Mkdir_def)

lemma os_MkdirAll_dir: "os_Stat fs p = StatDir \<Longrightarrow> os_MkdirAll E fs p perm = (fs, None)"
  by simp

lemma os_MkdirAll_file: "os_Stat fs p = StatFile \<Longrightarrow> os_MkdirAll E fs p perm = (fs, Some ENOTDIR)"
  by simp

lemma os_MkdirAll_step:
  assumes "os_Stat fs p \<noteq> StatDir" "os_Stat fs p \<noteq> StatFile"
  shows "os_MkdirAll E fs p perm =
     (case (if butlast p \<noteq> [] then os_MkdirAll E fs (butlast p) perm else (fs, None)) of
        (fs1, Some err) \<Rightarrow> (fs1, Some err)
      | (fs1, None) \<Rightarrow>
          (case os_Mkdir E fs1 p perm of
             (fs2, None) \<Rightarrow> (fs2, None)
           | (fs2, Some err) \<Rightarrow>
               if os_Stat fs2 p = StatDir then (fs2, None) else (fs2, Some err)))"
  using assms by (subst os_MkdirAll.simps) simp

text \<open>
  What a call of \<open>os.MkdirAll\<close> leaves: regular files are where they were, longer paths
  are untouched, success means the directory is there, and a second call, with whatever
  mode, changes nothing and ends like the first.
\<close>

lemma os_MkdirAll_stable:
  "os_MkdirAll E fs p perm = (fs', e) \<Longrightarrow>
     (\<forall>q. is_file fs' q = is_file fs q) \<and>
     (\<forall>q. length p < length q \<longrightarrow> fs' q = fs q) \<and>
     (e = None \<longrightarrow> os_Stat fs' p = StatDir) \<and>
     (\<forall>perm'. os_MkdirAll E fs' p perm' = (fs', e))"
proof (induction E fs p perm arbitrary: fs' e rule: os_MkdirAll.induct)
  case (1 E fs p perm)
  show ?case
  proof (cases "os_Stat fs p = StatDir \<or> os_Stat fs p = StatFile")
    case True
    then show ?thesis
    proof
      assume d: "os_Stat fs p = StatDir"
      with "1.prems" have "fs' = fs" "e = None" by (simp_all add: os_MkdirAll_dir)
      with d show ?thesis by (simp add: os_MkdirAll_dir del: os_MkdirAll.simps)
    next
      assume f: "os_Stat fs p = StatFile"
      with "1.prems" have "fs' = fs" "e = Some ENOTDIR" by (simp_all add: os_MkdirAll_file)
      with f show ?thesis by (simp add: os_MkdirAll_file del: os_MkdirAll.simps)
    qed
  next
    case False
    then have nd: "os_Stat fs p \<noteq> StatDir" and nf: "os_Stat fs p \<noteq> StatFile" by simp_all
    then have pne: "p \<noteq> []" by auto
    define par where "par = (if butlast p \<noteq> [] then os_MkdirAll E fs (butlast p) perm else (fs, None))"
    obtain fs1 e1 where par: "par = (fs1, e1)" by (cases par)
    have P: "(\<forall>q. is_file fs1 q = is_file fs q) \<and>
             (\<forall>q. length (butlast p) < length q \<longrightarrow> fs1 q = fs q) \<and>
             (e1 = None \<longrightarrow> os_Stat fs1 (butlast p) = StatDir) \<and>
             (\<forall>perm'. (if butlast p \<noteq> [] then os_MkdirAll E fs1 (butlast p) perm' else (fs1, None)) = (fs1, e1))"
    proof (cases "butlast p \<noteq> []")
      case True
      with par have "os_MkdirAll E fs (butlast p) perm = (fs1, e1)" by (simp add: par_def)
      from "1.IH" [OF nd nf True this] True show ?thesis by simp
    next
      case False
      with par have "fs1 = fs" "e1 = None" by (simp_all add: par_def)
      with False show ?thesis by simp
    qed
    have same: "fs1 p = fs p" using P pne by simp
    have st1: "os_Stat fs1 p = os_Stat fs p"
      using P same by (intro os_Stat_cong) simp_all
    have nd1: "os_Stat fs1 p \<noteq> StatDir" and nf1: "os_Stat fs1 p \<noteq> StatFile"
      using nd nf st1 by simp_all
    have step: "os_MkdirAll E fs p perm =
        (case par of
           (fs1, Some err) \<Rightarrow> (fs1, Some err)
         | (fs1, None) \<Rightarrow>
             (case os_Mkdir E fs1 p perm of
                (fs2, None) \<Rightarrow> (fs2, None)
              | (fs2, Some err) \<Rightarrow>
                  if os_Stat fs2 p = StatDir then (fs2, None) else (fs2, Some err)))"
      unfolding par_def by (rule os_MkdirAll_step [OF nd nf])
    have step1: "os_MkdirAll E fs1 p perm' =
        (case (fs1, e1) of
           (fs1, Some err) \<Rightarrow> (fs1, Some err)
         | (fs1, None) \<Rightarrow>
             (case os_Mkdir E fs1 p perm' of
                (fs2, None) \<Rightarrow> (fs2, None)
              | (fs2, Some err) \<Rightarrow>
                  if os_Stat fs2 p = StatDir then (fs2, None) else (fs2, Some err)))" for perm'
      using os_MkdirAll_step [OF nd1 nf1, of E perm'] P by simp
    show ?thesis
    proof (cases e1)
      case (Some err)
      with "1.prems" step par have r: "fs' = fs1" "e = Some err" by simp_all
      have "os_MkdirAll E fs1 p perm' = (fs1, Some err)" for perm'
        using step1 [of perm'] Some by simp
      with r P pne show ?thesis by (simp del: os_MkdirAll.simps)
    next
      case None
      with P have pd: "os_Stat fs1 (butlast p) = StatDir" by simp
      from os_Mkdir_cases [OF nd1 nf1 pd, of E]
      show ?thesis
      proof (elim disjE conjE exE)
        assume ne: "os_Stat fs1 p = ErrNotExist" and "\<not> mkdir_denied E p"
          and mk: "\<forall>perm. os_Mkdir E fs1 p perm = (fs1(p \<mapsto> Dir (perm AND NOT (umask E))), None)"
        let ?fs2 = "fs1(p \<mapsto> Dir (perm AND NOT (umask E)))"
        from "1.prems" step par None mk have r: "fs' = ?fs2" "e = None" by simp_all
        have n1: "fs1 p = None" using ne by (rule os_Stat_NotExist)
        have d2: "os_Stat ?fs2 p = StatDir" using ne by (rule os_Stat_Dir_upd)
        have "is_file ?fs2 q = is_file fs q" for q
          using P n1 by (simp add: is_file_Dir_upd)
        moreover have "length p < length q \<longrightarrow> ?fs2 q = fs q" for q
          using P by (cases "q = p") auto
        moreover have "os_MkdirAll E ?fs2 p perm' = (?fs2, None)" for perm'
          using d2 by (rule os_MkdirAll_dir)
        ultimately show ?thesis unfolding r using d2 by blast
      next
        fix err
        assume mk: "\<forall>perm. os_Mkdir E fs1 p perm = (fs1, Some err)"
        from "1.prems" step par None mk nd1 have r: "fs' = fs1" "e = Some err" by simp_all
        have "os_MkdirAll E fs1 p perm' = (fs1, Some err)" for perm'
          using step1 [of perm'] None mk nd1 by simp
        with r P pne show ?thesis by (simp del: os_MkdirAll.simps)
      qed
    qed
  qed
qed

lemma MakeDirIfNotExists_cases:
  "MakeDirIfNotExists E fs p = fs \<or> MakeDirIfNotExists E fs p = fst (os_MkdirAll E fs p mode_0755)"
  by (simp add: MakeDirIfNotExists_def del: os_MkdirAll.simps)

lemma prepare_dir_stable:
  assumes "os_MkdirAll E fs0 p perm = (fsB, eB)"
  shows "prepare_dir E fsB p = fsB \<and> prepare_dir_err E fsB p = eB \<and>
         (eB = None \<longrightarrow> os_Stat fsB p = StatDir)"
proof -
  from os_MkdirAll_stable [OF assms]
  have again: "\<And>perm'. os_MkdirAll E fsB p perm' = (fsB, eB)"
    and there: "eB = None \<longrightarrow> os_Stat fsB p = StatDir"
    by simp_all
  have "MakeDirIfNotExists E fsB p = fsB"
    using MakeDirIfNotExists_cases [of E fsB p] again [of mode_0755] by auto
  then show ?thesis
    using again [of ModePerm] there
    by (simp add: prepare_dir_def prepare_dir_err_def del: os_MkdirAll.simps)
qed

section \<open>The claim about the preparation of the directory\<close>

text \<open>
  C9: preparing the output directory, \<open>MakeDirIfNotExists\<close> followed by \<open>os.MkdirAll\<close> as
  in \<open>RunProfiling\<close>, is idempotent.  A second preparation of the same path leaves the
  file system exactly as the first left it, so the directory keeps its permissions, and
  it ends as the first did: when the first preparation met no error, the directory is
  there and the second meets none either.
\<close>

theorem prepare_dir_idempotent:
  "prepare_dir E (prepare_dir E fs p) p = prepare_dir E fs p \<and>
   prepare_dir_err E (prepare_dir E fs p) p = prepare_dir_err E fs p \<and>
   (prepare_dir_err E fs p = None \<longrightarrow>
      os_Stat (prepare_dir E fs p) p = StatDir \<and>
      prepare_dir_err E (prepare_dir E fs p) p = None)"
proof -
  obtain fsB eB where r: "os_MkdirAll E (MakeDirIfNotExists E fs p) p ModePerm = (fsB, eB)"
    by (cases "os_MkdirAll E (MakeDirIfNotExists E fs p) p ModePerm")
  have 1: "prepare_dir E fs p = fsB" and 2: "prepare_dir_err E fs p = eB"
    by (simp_all add: prepare_dir_def prepare_dir_err_def r del: os_MkdirAll.simps)
  from prepare_dir_stable [OF r] show ?thesis
    unfolding 1 2 by simp
qed

theorem prepare_dir_idempotent_witness:
  "prepare_dir_err (os_env.truncate E_ok) Map.empty [''profiles'', ''F'', ''case_1''] = None \<and>
   os_Stat (prepare_dir (os_env.truncate E_ok) Map.empty [''profiles'', ''F'', ''case_1''])
     [''profiles'', ''F'', ''case_1''] = StatDir \<and>
   prepare_dir_err (os_env.truncate E_ok)
     (prepare_dir (os_env.truncate E_ok) Map.empty [''profiles'', ''F'', ''case_1''])
     [''profiles'', ''F'', ''case_1''] = None \<and>
   prepare_dir (os_env.truncate E_ok)
     (prepare_dir (os_env.truncate E_ok) Map.empty [''profiles'', ''F'', ''case_1''])
     [''profiles'', ''F'', ''case_1'']
   = prepare_dir (os_env.truncate E_ok) Map.empty [''profiles'', ''F'', ''case_1'']"
proof -
  have ok: "prepare_dir_err (os_env.truncate E_ok) Map.empty [''profiles'', ''F'', ''case_1''] = None"
    by code_simp
  show ?thesis
    using ok prepare_dir_idempotent [of "os_env.truncate E_ok" Map.empty "[''profiles'', ''F'', ''case_1'']"]
    by blast
qed

section \<open>Proofs: the assertion mode\<close>













section \<open>The claim about the assertion mode\<close>


text \<open>
  A number outside the range of \<open>float64\<close> in the \<open>data\<close> member is a value of the wrong
  type: for the body \<open>{"response": {"code": 200, "data": 1e400}}\<close> the decoder reports an
  error and the test fails at the parse check, whatever code is expected.
\<close>

lemma number_outside_float64_fails_parse:
  "shape_code (ExecuteHandler (tc_body (Some (JObject [(''response'',
       JObject [(''code'', JInt 200), (''data'', JFrac 1 400)])])) 200)) = None \<and>
   snd (Unmarshal (ExecuteHandler (tc_body (Some (JObject [(''response'',
       JObject [(''code'', JInt 200), (''data'', JFrac 1 400)])])) 200))) \<noteq> None \<and>
   snd (RunSingle (cfg_of [] []) (tc_body (Some (JObject [(''response'',
       JObject [(''code'', JInt 200), (''data'', JFrac 1 400)])])) 200))
     = FailedNow msg_unmarshal"
  by code_simp



end
